theory Spec2Isabelle
  imports Main "HOL-Library.Word" "HOL-Library.Sublist"
begin

unbundle bit_operations_syntax

section \<open>Machine types and external constants\<close>

text \<open>
  The library is C. A C \<open>int\<close> is a 32-bit word read in two's complement (arithmetic wraps,
  comparisons are the signed ones, \<open><s\<close>), \<open>uint32_t\<close> and \<open>uint8_t\<close> are unsigned words.
\<close>

type_synonym c_int = "32 word"
type_synonym uint32_t = "32 word"
type_synonym uint8_t = "8 word"

text \<open>The error numbers of \<open>errno.h\<close> (Linux) that the library returns.\<close>

definition EPERM :: c_int where "EPERM = 1"
definition ENOENT :: c_int where "ENOENT = 2"
definition EINTR :: c_int where "EINTR = 4"
definition EAGAIN :: c_int where "EAGAIN = 11"
definition ENOMEM :: c_int where "ENOMEM = 12"
definition EACCES :: c_int where "EACCES = 13"
definition EBUSY :: c_int where "EBUSY = 16"
definition EEXIST :: c_int where "EEXIST = 17"
definition ENODEV :: c_int where "ENODEV = 19"
definition EINVAL :: c_int where "EINVAL = 22"
definition ERANGE :: c_int where "ERANGE = 34"
definition ENOTSOCK :: c_int where "ENOTSOCK = 88"
definition EPROTONOSUPPORT :: c_int where "EPROTONOSUPPORT = 93"
definition EOPNOTSUPP :: c_int where "EOPNOTSUPP = 95"
definition EAFNOSUPPORT :: c_int where "EAFNOSUPPORT = 97"
definition EADDRNOTAVAIL :: c_int where "EADDRNOTAVAIL = 99"
definition ENOBUFS :: c_int where "ENOBUFS = 105"

lemmas errno_defs = EPERM_def ENOENT_def EINTR_def EAGAIN_def ENOMEM_def EACCES_def
  EBUSY_def EEXIST_def ENODEV_def EINVAL_def ERANGE_def ENOTSOCK_def EPROTONOSUPPORT_def
  EOPNOTSUPP_def EAFNOSUPPORT_def EADDRNOTAVAIL_def ENOBUFS_def

text \<open>The error identifiers of libnl (\<open>netlink/errno.h\<close>) named by \<open>nl2syserr\<close>.\<close>

definition NLE_INTR :: c_int where "NLE_INTR = 2"
definition NLE_BAD_SOCK :: c_int where "NLE_BAD_SOCK = 3"
definition NLE_AGAIN :: c_int where "NLE_AGAIN = 4"
definition NLE_NOMEM :: c_int where "NLE_NOMEM = 5"
definition NLE_EXIST :: c_int where "NLE_EXIST = 6"
definition NLE_INVAL :: c_int where "NLE_INVAL = 7"
definition NLE_RANGE :: c_int where "NLE_RANGE = 8"
definition NLE_OPNOTSUPP :: c_int where "NLE_OPNOTSUPP = 10"
definition NLE_AF_NOSUPPORT :: c_int where "NLE_AF_NOSUPPORT = 11"
definition NLE_OBJ_NOTFOUND :: c_int where "NLE_OBJ_NOTFOUND = 12"
definition NLE_NOADDR :: c_int where "NLE_NOADDR = 19"
definition NLE_BUSY :: c_int where "NLE_BUSY = 25"
definition NLE_PROTO_MISMATCH :: c_int where "NLE_PROTO_MISMATCH = 26"
definition NLE_NOACCESS :: c_int where "NLE_NOACCESS = 27"
definition NLE_PERM :: c_int where "NLE_PERM = 28"
definition NLE_NODEV :: c_int where "NLE_NODEV = 31"

lemmas NLE_defs = NLE_INTR_def NLE_BAD_SOCK_def NLE_AGAIN_def NLE_NOMEM_def NLE_EXIST_def
  NLE_INVAL_def NLE_RANGE_def NLE_OPNOTSUPP_def NLE_AF_NOSUPPORT_def NLE_OBJ_NOTFOUND_def
  NLE_NOADDR_def NLE_BUSY_def NLE_PROTO_MISMATCH_def NLE_NOACCESS_def NLE_PERM_def
  NLE_NODEV_def

section \<open>libnl helpers\<close>

text \<open>
  \<open>abs\<close> of the C library on a 32-bit \<open>int\<close>. The absolute value of the most negative
  \<open>int\<close> cannot be represented and C leaves the behaviour of \<open>abs\<close> undefined there: the
  model has no value for it (\<open>None\<close>).
\<close>

definition INT_MIN :: c_int where "INT_MIN = - 2147483648"

definition c_abs :: "c_int \<Rightarrow> c_int option" where
  "c_abs x = (if x = INT_MIN then None else Some (if x <s 0 then - x else x))"

text \<open>
  \<open>nl2syserr\<close>: the \<open>switch\<close> on \<open>abs(nl_error)\<close>, case by case in source order. Where
  \<open>abs\<close> is undefined so is \<open>nl2syserr\<close>.
\<close>

definition nl2syserr :: "c_int \<Rightarrow> c_int option" where
  "nl2syserr nl_error =
     (case c_abs nl_error of
        None \<Rightarrow> None
      | Some a \<Rightarrow> Some (
      if a = 0 then 0
      else if a = NLE_EXIST then EEXIST
      else if a = NLE_NOADDR then EADDRNOTAVAIL
      else if a = NLE_OBJ_NOTFOUND then ENOENT
      else if a = NLE_INTR then EINTR
      else if a = NLE_AGAIN then EAGAIN
      else if a = NLE_BAD_SOCK then ENOTSOCK
      else if a = NLE_NOACCESS then EACCES
      else if a = NLE_INVAL then EINVAL
      else if a = NLE_NOMEM then ENOMEM
      else if a = NLE_AF_NOSUPPORT then EAFNOSUPPORT
      else if a = NLE_PROTO_MISMATCH then EPROTONOSUPPORT
      else if a = NLE_OPNOTSUPP then EOPNOTSUPP
      else if a = NLE_PERM then EPERM
      else if a = NLE_BUSY then EBUSY
      else if a = NLE_RANGE then ERANGE
      else if a = NLE_NODEV then ENODEV
      else EINVAL))"

section \<open>Logging\<close>

text \<open>
  The diagnostics macros \<open>err\<close>, \<open>info\<close> and \<open>dbg\<close> expand to the empty
  \<open>team_log_null\<close> unless the library is built with \<open>ENABLE_LOGGING\<close>; they write to
  the log sink only and are not part of the model.

  A C string is modelled by its characters before the terminating NUL, so \<open>s[0] == '\0'\<close>
  is \<open>s = []\<close>.
\<close>

definition LOG_ERR :: c_int where "LOG_ERR = 3"
definition LOG_INFO :: c_int where "LOG_INFO = 6"
definition LOG_DEBUG :: c_int where "LOG_DEBUG = 7"

text \<open>\<open>isspace\<close> and \<open>isdigit\<close> of \<open>ctype.h\<close> in the C locale.\<close>

definition isspace :: "char \<Rightarrow> bool" where
  "isspace c \<longleftrightarrow> c = CHR '' '' \<or> c = CHR 0x09 \<or> c = CHR 0x0A \<or> c = CHR 0x0B
     \<or> c = CHR 0x0C \<or> c = CHR 0x0D"

definition isdigit :: "char \<Rightarrow> bool" where
  "isdigit c \<longleftrightarrow> (48::nat) \<le> of_char c \<and> of_char c \<le> (57::nat)"

definition digit_val :: "char \<Rightarrow> int" where
  "digit_val c = int (of_char c) - 48"

text \<open>
  \<open>strtol(nptr, &endptr, 10)\<close> of the C library, for a 64-bit \<open>long\<close>: leading white
  space is skipped, one optional sign is read, then the longest run of decimal digits. With no
  digit there is no conversion: the value is 0 and \<open>endptr\<close> is \<open>nptr\<close> itself. A value
  outside the range of \<open>long\<close> is clamped to \<open>LONG_MAX\<close> or \<open>LONG_MIN\<close>. The result is the
  value and the text \<open>endptr\<close> points to.
\<close>

fun skip_space :: "string \<Rightarrow> string" where
  "skip_space [] = []"
| "skip_space (c # cs) = (if isspace c then skip_space cs else c # cs)"

fun scan_digits :: "int \<Rightarrow> string \<Rightarrow> int \<times> string" where
  "scan_digits acc [] = (acc, [])"
| "scan_digits acc (c # cs) =
     (if isdigit c then scan_digits (acc * 10 + digit_val c) cs else (acc, c # cs))"

definition LONG_MAX :: int where "LONG_MAX = 2 ^ 63 - 1"
definition LONG_MIN :: int where "LONG_MIN = - (2 ^ 63)"

definition clamp_long :: "int \<Rightarrow> int" where
  "clamp_long v = (if v > LONG_MAX then LONG_MAX else if v < LONG_MIN then LONG_MIN else v)"

definition scan_sign :: "string \<Rightarrow> bool \<times> string" where
  "scan_sign t =
     (case t of
        [] \<Rightarrow> (False, [])
      | c # cs \<Rightarrow>
          if c = CHR ''-'' then (True, cs)
          else if c = CHR ''+'' then (False, cs)
          else (False, t))"

definition strtol :: "string \<Rightarrow> int \<times> string" where
  "strtol nptr =
     (let (neg, u) = scan_sign (skip_space nptr) in
      case u of
        [] \<Rightarrow> (0, nptr)
      | c # cs \<Rightarrow>
          if isdigit c then
            (let (v, endptr) = scan_digits 0 u
             in (clamp_long (if neg then - v else v), endptr))
          else (0, nptr))"

text \<open>\<open>strncmp(a, b, n) == 0\<close>: the two strings agree on their first \<open>n\<close> characters.\<close>

definition strncmp_eq :: "string \<Rightarrow> string \<Rightarrow> nat \<Rightarrow> bool" where
  "strncmp_eq a b n \<longleftrightarrow> take n a = take n b"

text \<open>
  \<open>log_priority\<close>. The \<open>long\<close> that \<open>strtol\<close> returns is stored in the \<open>int prio\<close>: the
  conversion keeps the low 32 bits.
\<close>

definition log_priority :: "string \<Rightarrow> c_int" where
  "log_priority priority =
     (let (v, endptr) = strtol priority;
          prio = (word_of_int v :: c_int)
      in if endptr = [] \<or> isspace (hd endptr) then prio
         else if strncmp_eq priority ''err'' 3 then LOG_ERR
         else if strncmp_eq priority ''info'' 4 then LOG_INFO
         else if strncmp_eq priority ''debug'' 5 then LOG_DEBUG
         else 0)"

section \<open>The library context\<close>

text \<open>
  Calls that leave the library are recorded, in order, in a ghost field \<open>trace\<close> of the
  context: the invocation of a change handler's function (with the address of the handler
  structure it came from, the function, its private pointer and the mask passed) and the
  calls into libnl that open a channel, resolve the family or the multicast group, send a
  request, receive, or delete a link.
\<close>

type_synonym team_change_type_mask_t = "32 word"
type_synonym handler_ptr = nat

datatype team_cmd = TEAM_CMD_OPTIONS_SET | TEAM_CMD_OPTIONS_GET | TEAM_CMD_PORT_LIST_GET
  | TEAM_CMD_OTHER

datatype nl_sock_id = NL_SOCK | NL_SOCK_EVENT | NL_CLI_SOCK

datatype ext_call =
    CallFunc handler_ptr nat nat team_change_type_mask_t
  | DisableSeqCheck
  | GenlConnect nl_sock_id
  | CtrlResolve
  | CtrlResolveGrp
  | AddMembership c_int
  | SendAutoComplete team_cmd
  | RecvMsgsDefault
  | LinkDelete uint32_t

text \<open>
  \<open>struct team_change_handler\<close> lives in the caller's memory; the library keeps its
  address. \<open>func\<close> is the address of the callback.
\<close>

record team_change_handler =
  func :: nat
  type_mask :: team_change_type_mask_t
  func_priv :: nat

text \<open>
  \<open>struct team_port\<close> and \<open>struct team_option\<close>, fields prefixed since both have a
  \<open>changed\<close> and the context has an \<open>ifindex\<close> too. The payload \<open>data\<close> of an option is a
  copy of a 32-bit number or of a string, as its \<open>type\<close> says.
\<close>

record team_port =
  port_ifindex :: uint32_t
  port_speed :: uint32_t
  port_duplex :: uint8_t
  port_linkup :: bool
  port_changed :: bool

datatype team_option_type = TEAM_OPTION_TYPE_U32 | TEAM_OPTION_TYPE_STRING

datatype option_payload = DataU32 uint32_t | DataString string

record team_option =
  option_type :: team_option_type
  option_name :: string
  option_data :: option_payload
  option_changed :: bool

text \<open>
  \<open>struct team_handle\<close>: the three intrusive lists are lists of their entries, the sockets
  and the link cache are libnl's and appear through \<open>trace\<close> only.
\<close>

record team_handle =
  nl_sock_err :: c_int
  family :: c_int
  ifindex :: uint32_t
  port_list :: "team_port list"
  option_list :: "team_option list"
  change_handler_list :: "handler_ptr list"
  pending_type_mask :: team_change_type_mask_t
  th_log_priority :: c_int
  trace :: "ext_call list"

text \<open>
  Modelled from the spec: the change categories of \<open>team.h\<close>, which is not among the
  sources. The spec names two categories, port change and option change, as bits of a mask;
  they are taken to be the two lowest bits, and \<open>TEAM_ANY_CHANGE\<close> is both. The mask type
  is taken to be an unsigned 32-bit integer.
\<close>

definition TEAM_PORT_CHANGE :: team_change_type_mask_t where "TEAM_PORT_CHANGE = 1"
definition TEAM_OPTION_CHANGE :: team_change_type_mask_t where "TEAM_OPTION_CHANGE = 2"
definition TEAM_ANY_CHANGE :: team_change_type_mask_t where
  "TEAM_ANY_CHANGE = TEAM_PORT_CHANGE OR TEAM_OPTION_CHANGE"

text \<open>
  Modelled from the spec: the list primitives of \<open>list.h\<close>, which is not among the sources.
  The spec's collections are ordered and keep insertion order, so \<open>list_add\<close> puts the new
  node after the nodes already there, \<open>list_move_nodes\<close> moves the nodes of one list behind
  those of another, \<open>list_del\<close> unlinks one node, and \<open>list_for_each_node_entry\<close> visits
  the nodes first to last.
\<close>

definition list_add :: "'a list \<Rightarrow> 'a \<Rightarrow> 'a list" where
  "list_add head new_node = head @ [new_node]"

definition list_move_nodes :: "'a list \<Rightarrow> 'a list \<Rightarrow> 'a list" where
  "list_move_nodes dst_head src_head = dst_head @ src_head"

definition list_del :: "'a \<Rightarrow> 'a list \<Rightarrow> 'a list" where
  "list_del node head = remove1 node head"

section \<open>Change handlers\<close>

definition set_call_change_handlers ::
  "team_handle \<Rightarrow> team_change_type_mask_t \<Rightarrow> team_handle" where
  "set_call_change_handlers th set_type_mask =
     th\<lparr>pending_type_mask := pending_type_mask th OR set_type_mask\<rparr>"

text \<open>
  The loop of \<open>check_call_change_handlers\<close> over the handler list. \<open>hmem\<close> is the caller's
  memory, read through the handler's address at the time of the call. The callback itself is
  the caller's code: the model records the call and takes it not to touch the context (the
  spec forbids a handler to register or unregister handlers).
\<close>

fun call_change_handlers ::
  "(handler_ptr \<Rightarrow> team_change_handler) \<Rightarrow> team_change_type_mask_t \<Rightarrow> handler_ptr list \<Rightarrow>
   team_handle \<Rightarrow> team_handle" where
  "call_change_handlers hmem to_call_type_mask [] th = th"
| "call_change_handlers hmem to_call_type_mask (handler_item # rest) th =
     (let handler = hmem handler_item;
          item_type_mask = type_mask handler AND to_call_type_mask
      in call_change_handlers hmem to_call_type_mask rest
           (if item_type_mask \<noteq> 0
            then th\<lparr>trace := trace th @
                   [CallFunc handler_item (func handler) (func_priv handler) item_type_mask]\<rparr>
            else th))"

definition check_call_change_handlers ::
  "(handler_ptr \<Rightarrow> team_change_handler) \<Rightarrow> team_handle \<Rightarrow> team_change_type_mask_t \<Rightarrow>
   team_handle" where
  "check_call_change_handlers hmem th call_type_mask =
     (let to_call_type_mask = pending_type_mask th AND call_type_mask;
          th1 = call_change_handlers hmem to_call_type_mask (change_handler_list th) th
      in th1\<lparr>pending_type_mask := pending_type_mask th1 AND NOT call_type_mask\<rparr>)"

text \<open>\<open>find_change_handler\<close> compares the stored address with the address passed.\<close>

definition find_change_handler :: "team_handle \<Rightarrow> handler_ptr \<Rightarrow> handler_ptr option" where
  "find_change_handler th handler =
     find (\<lambda>handler_item. handler_item = handler) (change_handler_list th)"

text \<open>\<open>malloc_ok\<close>: whether the allocation of the list node succeeds.\<close>

definition team_change_handler_register ::
  "team_handle \<Rightarrow> handler_ptr \<Rightarrow> bool \<Rightarrow> c_int \<times> team_handle" where
  "team_change_handler_register th handler malloc_ok =
     (if find_change_handler th handler \<noteq> None then (- EEXIST, th)
      else if \<not> malloc_ok then (- ENOMEM, th)
      else (0, th\<lparr>change_handler_list := list_add (change_handler_list th) handler\<rparr>))"

definition team_change_handler_unregister :: "team_handle \<Rightarrow> handler_ptr \<Rightarrow> team_handle" where
  "team_change_handler_unregister th handler =
     (case find_change_handler th handler of
        None \<Rightarrow> th
      | Some handler_item \<Rightarrow>
          th\<lparr>change_handler_list := list_del handler_item (change_handler_list th)\<rparr>)"

section \<open>Inbound messages\<close>

text \<open>
  An attribute of a parsed message is opaque to the library, which reads it with libnl's
  accessors only: an attribute is modelled by what each accessor returns for it. A flag
  attribute carries nothing; only its presence is tested.
\<close>

record nlattr =
  nla_get_u32 :: uint32_t
  nla_get_u8 :: uint8_t
  nla_get_string :: string

datatype team_attr_port = TEAM_ATTR_PORT_IFINDEX | TEAM_ATTR_PORT_CHANGED
  | TEAM_ATTR_PORT_LINKUP | TEAM_ATTR_PORT_SPEED | TEAM_ATTR_PORT_DUPLEX

datatype team_attr_option = TEAM_ATTR_OPTION_NAME | TEAM_ATTR_OPTION_CHANGED
  | TEAM_ATTR_OPTION_TYPE | TEAM_ATTR_OPTION_DATA

text \<open>
  \<open>nla_parse_nested\<close> on one item of a list attribute either fails or fills the table of
  the item's attributes, indexed by tag, an absent attribute being \<open>None\<close>.
\<close>

datatype 'tag nested = ParseError | Parsed "'tag \<Rightarrow> nlattr option"

text \<open>
  The items of a list attribute in wire order. Each item comes with the outcome of the
  memory allocation made while it is processed, should the loop get that far (\<open>True\<close>: the
  allocation succeeds).
\<close>

type_synonym 'tag nl_items = "('tag nested \<times> bool) list"

text \<open>
  A message after \<open>genlmsg_parse\<close>: its command and its three top-level attributes.
\<close>

record nl_msg =
  genl_cmd :: team_cmd
  ATTR_TEAM_IFINDEX :: "nlattr option"
  ATTR_LIST_PORT :: "team_attr_port nl_items option"
  ATTR_LIST_OPTION :: "team_attr_option nl_items option"

text \<open>The values a libnl callback returns.\<close>

datatype nl_cb_action = NL_OK | NL_SKIP | NL_STOP

text \<open>
  How the loop over option items ends: it runs to the end with the list built so far, it
  leaves the handler early with \<open>return NL_SKIP\<close>, or it writes through a null pointer.
\<close>

datatype 'a decoded = Built 'a | EarlyReturn | NullDeref

text \<open>
  How a procedure ends: it returns, the process dies on a null pointer, it waits for a
  message that never comes, or it runs into behaviour that C leaves undefined (\<open>abs\<close> of
  the most negative \<open>int\<close>).
\<close>

datatype 'a result = Returns 'a | Segfault | Blocks | Undefined

section \<open>Ports\<close>

definition flush_port_list :: "team_handle \<Rightarrow> team_handle" where
  "flush_port_list th = th\<lparr>port_list := []\<rparr>"

text \<open>
  The port that one loop iteration fills in after \<open>memset\<close>, from the item's attribute table
  and its ifindex attribute.
\<close>

definition zeroed_port :: team_port where
  "zeroed_port = \<lparr>port_ifindex = 0, port_speed = 0, port_duplex = 0, port_linkup = False,
     port_changed = False\<rparr>"

definition fill_port :: "(team_attr_port \<Rightarrow> nlattr option) \<Rightarrow> nlattr \<Rightarrow> team_port" where
  "fill_port port_attrs ifindex_attr =
     (let port = zeroed_port\<lparr>port_ifindex := nla_get_u32 ifindex_attr\<rparr>;
          port = (if port_attrs TEAM_ATTR_PORT_CHANGED \<noteq> None
                  then port\<lparr>port_changed := True\<rparr> else port);
          port = (if port_attrs TEAM_ATTR_PORT_LINKUP \<noteq> None
                  then port\<lparr>port_linkup := True\<rparr> else port);
          port = (case port_attrs TEAM_ATTR_PORT_SPEED of
                    Some a \<Rightarrow> port\<lparr>port_speed := nla_get_u32 a\<rparr> | None \<Rightarrow> port);
          port = (case port_attrs TEAM_ATTR_PORT_DUPLEX of
                    Some a \<Rightarrow> port\<lparr>port_duplex := nla_get_u8 a\<rparr> | None \<Rightarrow> port)
      in port)"

text \<open>
  The \<open>nla_for_each_nested\<close> loop of \<open>get_port_list_handler\<close> over \<open>tmp_list\<close>;
  \<open>None\<close> is a \<open>return NL_SKIP\<close> from inside the loop.
\<close>

fun port_list_loop ::
  "team_attr_port nl_items \<Rightarrow> team_port list \<Rightarrow> team_port list option" where
  "port_list_loop [] tmp_list = Some tmp_list"
| "port_list_loop ((nl_port, malloc_ok) # rest) tmp_list =
     (case nl_port of
        ParseError \<Rightarrow> None
      | Parsed port_attrs \<Rightarrow>
          (case port_attrs TEAM_ATTR_PORT_IFINDEX of
             None \<Rightarrow> None
           | Some ifindex_attr \<Rightarrow>
               if \<not> malloc_ok then None
               else port_list_loop rest
                      (list_add tmp_list (fill_port port_attrs ifindex_attr))))"

definition get_port_list_handler ::
  "nl_msg \<Rightarrow> team_handle \<Rightarrow> nl_cb_action \<times> team_handle" where
  "get_port_list_handler msg th =
     (let team_ifindex =
            (case ATTR_TEAM_IFINDEX msg of Some a \<Rightarrow> nla_get_u32 a | None \<Rightarrow> 0)
      in if team_ifindex \<noteq> ifindex th then (NL_SKIP, th)
         else
           (case ATTR_LIST_PORT msg of
              None \<Rightarrow> (NL_SKIP, th)
            | Some items \<Rightarrow>
                (case port_list_loop items [] of
                   None \<Rightarrow> (NL_SKIP, th)
                 | Some tmp_list \<Rightarrow>
                     (let th1 = flush_port_list th;
                          th2 = th1\<lparr>port_list := list_move_nodes (port_list th1) tmp_list\<rparr>
                      in (NL_SKIP, set_call_change_handlers th2 TEAM_PORT_CHANGE)))))"

section \<open>Options\<close>

text \<open>The attribute types of libnl (\<open>netlink/attr.h\<close>) that the option decoder knows.\<close>

definition NLA_U32 :: c_int where "NLA_U32 = 3"
definition NLA_STRING :: c_int where "NLA_STRING = 5"

definition flush_option_list :: "team_handle \<Rightarrow> team_handle" where
  "flush_option_list th = th\<lparr>option_list := []\<rparr>"

text \<open>
  \<open>create_option\<close> copies name and data into fresh memory; \<open>alloc_ok\<close> says whether its
  three allocations all succeed. It returns NULL otherwise.
\<close>

definition create_option ::
  "string \<Rightarrow> team_option_type \<Rightarrow> option_payload \<Rightarrow> bool \<Rightarrow> bool \<Rightarrow> team_option option" where
  "create_option name opt_type data changed alloc_ok =
     (if \<not> alloc_ok then None
      else Some \<lparr>option_type = opt_type, option_name = name, option_data = data,
                 option_changed = changed\<rparr>)"

text \<open>\<open>__find_option\<close>: the first option of the list with that name.\<close>

definition find_option :: "team_option list \<Rightarrow> string \<Rightarrow> team_option option" where
  "find_option opt_head name = find (\<lambda>option. option_name option = name) opt_head"

text \<open>
  The \<open>nla_for_each_nested\<close> loop of \<open>get_options_handler\<close>. The result of
  \<open>create_option\<close> is linked into \<open>tmp_list\<close> unchecked: with NULL, \<open>list_add\<close> writes
  through a null pointer.
\<close>

fun option_list_loop ::
  "team_attr_option nl_items \<Rightarrow> team_option list \<Rightarrow> team_option list decoded" where
  "option_list_loop [] tmp_list = Built tmp_list"
| "option_list_loop ((nl_option, alloc_ok) # rest) tmp_list =
     (case nl_option of
        ParseError \<Rightarrow> EarlyReturn
      | Parsed option_attrs \<Rightarrow>
          (case option_attrs TEAM_ATTR_OPTION_NAME of
             None \<Rightarrow> EarlyReturn
           | Some name_attr \<Rightarrow>
          (case option_attrs TEAM_ATTR_OPTION_TYPE of
             None \<Rightarrow> EarlyReturn
           | Some type_attr \<Rightarrow>
          (case option_attrs TEAM_ATTR_OPTION_DATA of
             None \<Rightarrow> EarlyReturn
           | Some data_attr \<Rightarrow>
               (let name = nla_get_string name_attr in
                if find_option tmp_list name \<noteq> None then option_list_loop rest tmp_list
                else
                  (let changed = (option_attrs TEAM_ATTR_OPTION_CHANGED \<noteq> None);
                       nla_type = nla_get_u32 type_attr;
                       created =
                         (if nla_type = NLA_U32 then
                            Some (create_option name TEAM_OPTION_TYPE_U32
                                    (DataU32 (nla_get_u32 data_attr)) changed alloc_ok)
                          else if nla_type = NLA_STRING then
                            Some (create_option name TEAM_OPTION_TYPE_STRING
                                    (DataString (nla_get_string data_attr)) changed alloc_ok)
                          else None)
                   in case created of
                        None \<Rightarrow> option_list_loop rest tmp_list
                      | Some None \<Rightarrow> NullDeref
                      | Some (Some option) \<Rightarrow>
                          option_list_loop rest (list_add tmp_list option)))))))"

definition get_options_handler ::
  "nl_msg \<Rightarrow> team_handle \<Rightarrow> (nl_cb_action \<times> team_handle) result" where
  "get_options_handler msg th =
     (let team_ifindex =
            (case ATTR_TEAM_IFINDEX msg of Some a \<Rightarrow> nla_get_u32 a | None \<Rightarrow> 0)
      in if team_ifindex \<noteq> ifindex th then Returns (NL_SKIP, th)
         else
           (case ATTR_LIST_OPTION msg of
              None \<Rightarrow> Returns (NL_SKIP, th)
            | Some items \<Rightarrow>
                (case option_list_loop items [] of
                   Built tmp_list \<Rightarrow>
                     (let th1 = flush_option_list th;
                          th2 = th1\<lparr>option_list := list_move_nodes (option_list th1) tmp_list\<rparr>
                      in Returns (NL_SKIP, set_call_change_handlers th2 TEAM_OPTION_CHANGE))
                 | EarlyReturn \<Rightarrow> Returns (NL_SKIP, th)
                 | NullDeref \<Rightarrow> Segfault)))"

definition team_get_option_by_name :: "team_handle \<Rightarrow> string \<Rightarrow> team_option option" where
  "team_get_option_by_name th name = find_option (option_list th) name"

section \<open>Request and response\<close>

text \<open>
  What the command socket delivers to the callbacks installed by \<open>team_init\<close>: a valid
  message (to the handler given to \<open>send_and_recv\<close>), an error message with its code (to
  \<open>error_handler\<close>), the end of a multipart reply (to \<open>finish_handler\<close>) or an
  acknowledgement (to \<open>ack_handler\<close>). The last three store into \<open>nl_sock_err\<close>.
\<close>

datatype nl_event = EvValid nl_msg | EvError c_int | EvFinish | EvAck

type_synonym valid_handler = "nl_msg \<Rightarrow> team_handle \<Rightarrow> (nl_cb_action \<times> team_handle) result"

definition deliver :: "valid_handler option \<Rightarrow> nl_event \<Rightarrow> team_handle \<Rightarrow> team_handle result" where
  "deliver valid_handler ev th =
     (case ev of
        EvValid msg \<Rightarrow>
          (case valid_handler of
             None \<Rightarrow> Returns th
           | Some h \<Rightarrow>
               (case h msg th of
                  Returns (action, th') \<Rightarrow> Returns th'
                | Segfault \<Rightarrow> Segfault
                | Blocks \<Rightarrow> Blocks
                | Undefined \<Rightarrow> Undefined))
      | EvError e \<Rightarrow> Returns (th\<lparr>nl_sock_err := e\<rparr>)
      | EvFinish \<Rightarrow> Returns (th\<lparr>nl_sock_err := 0\<rparr>)
      | EvAck \<Rightarrow> Returns (th\<lparr>nl_sock_err := 0\<rparr>))"

text \<open>
  The loop \<open>while (th->nl_sock_err > 0) nl_recvmsgs_default(th->nl_sock)\<close>. Each call of
  \<open>nl_recvmsgs_default\<close> delivers the next event of the socket; when the socket has
  nothing more to deliver the call never returns.
\<close>

fun recv_loop :: "valid_handler option \<Rightarrow> nl_event list \<Rightarrow> team_handle \<Rightarrow> team_handle result" where
  "recv_loop valid_handler [] th = (if 0 <s nl_sock_err th then Blocks else Returns th)"
| "recv_loop valid_handler (ev # evs) th =
     (if 0 <s nl_sock_err th then
        (case deliver valid_handler ev (th\<lparr>trace := trace th @ [RecvMsgsDefault]\<rparr>) of
           Returns th' \<Rightarrow> recv_loop valid_handler evs th'
         | Segfault \<Rightarrow> Segfault
         | Blocks \<Rightarrow> Blocks
         | Undefined \<Rightarrow> Undefined)
      else Returns th)"

text \<open>\<open>return -nl2syserr(err)\<close>, as the callers of \<open>nl2syserr\<close> all end.\<close>

definition return_syserr :: "c_int \<Rightarrow> team_handle \<Rightarrow> (c_int \<times> team_handle) result" where
  "return_syserr err th =
     (case nl2syserr err of None \<Rightarrow> Undefined | Some e \<Rightarrow> Returns (- e, th))"

text \<open>
  \<open>send_and_recv\<close>; \<open>send_res\<close> is what \<open>nl_send_auto_complete\<close> returns for the
  message, \<open>evs\<close> what the socket delivers afterwards.
\<close>

definition send_and_recv ::
  "team_handle \<Rightarrow> team_cmd \<Rightarrow> valid_handler option \<Rightarrow> c_int \<Rightarrow> nl_event list \<Rightarrow>
   (c_int \<times> team_handle) result" where
  "send_and_recv th msg valid_handler send_res evs =
     (let th0 = th\<lparr>trace := trace th @ [SendAutoComplete msg]\<rparr>;
          err = send_res
      in if err <s 0 then return_syserr err th0
         else
           (case recv_loop valid_handler evs (th0\<lparr>nl_sock_err := 1\<rparr>) of
              Returns th' \<Rightarrow> Returns (nl_sock_err th', th')
            | Segfault \<Rightarrow> Segfault
            | Blocks \<Rightarrow> Blocks
            | Undefined \<Rightarrow> Undefined))"

text \<open>What the environment does during one fetch.\<close>

record fetch_env =
  nlmsg_alloc_ok :: bool
  nla_put_ok :: bool
  send_res :: c_int
  events :: "nl_event list"

definition get_port_list ::
  "(handler_ptr \<Rightarrow> team_change_handler) \<Rightarrow> team_handle \<Rightarrow> fetch_env \<Rightarrow>
   (c_int \<times> team_handle) result" where
  "get_port_list hmem th env =
     (if \<not> nlmsg_alloc_ok env then Returns (- ENOMEM, th)
      else if \<not> nla_put_ok env then Returns (- ENOBUFS, th)
      else
        (case send_and_recv th TEAM_CMD_PORT_LIST_GET
                (Some (\<lambda>msg th. Returns (get_port_list_handler msg th)))
                (send_res env) (events env) of
           Returns (err, th') \<Rightarrow>
             if err \<noteq> 0 then Returns (err, th')
             else Returns (0, check_call_change_handlers hmem th' TEAM_PORT_CHANGE)
         | Segfault \<Rightarrow> Segfault
         | Blocks \<Rightarrow> Blocks
         | Undefined \<Rightarrow> Undefined))"

definition get_options ::
  "(handler_ptr \<Rightarrow> team_change_handler) \<Rightarrow> team_handle \<Rightarrow> fetch_env \<Rightarrow>
   (c_int \<times> team_handle) result" where
  "get_options hmem th env =
     (if \<not> nlmsg_alloc_ok env then Returns (- ENOMEM, th)
      else if \<not> nla_put_ok env then Returns (- ENOBUFS, th)
      else
        (case send_and_recv th TEAM_CMD_OPTIONS_GET (Some get_options_handler)
                (send_res env) (events env) of
           Returns (err, th') \<Rightarrow>
             if err \<noteq> 0 then Returns (err, th')
             else Returns (0, check_call_change_handlers hmem th' TEAM_OPTION_CHANGE)
         | Segfault \<Rightarrow> Segfault
         | Blocks \<Rightarrow> Blocks
         | Undefined \<Rightarrow> Undefined))"

section \<open>Context functions\<close>

definition event_handler :: valid_handler where
  "event_handler msg th =
     (case genl_cmd msg of
        TEAM_CMD_PORT_LIST_GET \<Rightarrow> Returns (get_port_list_handler msg th)
      | TEAM_CMD_OPTIONS_GET \<Rightarrow> get_options_handler msg th
      | _ \<Rightarrow> Returns (NL_SKIP, th))"

definition team_set_log_priority :: "team_handle \<Rightarrow> c_int \<Rightarrow> team_handle" where
  "team_set_log_priority th priority = th\<lparr>th_log_priority := priority\<rparr>"

definition team_get_log_priority :: "team_handle \<Rightarrow> c_int" where
  "team_get_log_priority th = th_log_priority th"

text \<open>The context after \<open>memset(th, 0, ...)\<close> and the three \<open>list_init\<close>.\<close>

definition zeroed_handle :: team_handle where
  "zeroed_handle = \<lparr>nl_sock_err = 0, family = 0, ifindex = 0, port_list = [],
     option_list = [], change_handler_list = [], pending_type_mask = 0,
     th_log_priority = 0, trace = []\<rparr>"

text \<open>
  What the environment gives \<open>team_alloc\<close>: whether each allocation succeeds, the value of
  the environment variable \<open>TEAM_LOG\<close> if set, and the result of connecting the route socket.
\<close>

record alloc_env =
  malloc_th_ok :: bool
  getenv_TEAM_LOG :: "string option"
  nl_sock_ok :: bool
  nl_sock_event_ok :: bool
  nl_cli_sock_ok :: bool
  nl_cli_connect_res :: c_int
  link_cache_ok :: bool

definition team_alloc :: "alloc_env \<Rightarrow> team_handle option" where
  "team_alloc env =
     (if \<not> malloc_th_ok env then None
      else
        (let th = zeroed_handle\<lparr>th_log_priority := LOG_ERR\<rparr>;
             th = (case getenv_TEAM_LOG env of
                     None \<Rightarrow> th
                   | Some e \<Rightarrow> team_set_log_priority th (log_priority e))
         in if \<not> nl_sock_ok env then None
            else if \<not> nl_sock_event_ok env then None
            else if \<not> nl_cli_sock_ok env then None
            else if nl_cli_connect_res env \<noteq> 0 then None
            else if \<not> link_cache_ok env then None
            else Some th))"

text \<open>What the environment gives \<open>team_destroy\<close>.\<close>

record destroy_env =
  rtnl_link_alloc_ok :: bool
  rtnl_link_delete_res :: c_int

definition team_destroy ::
  "team_handle \<Rightarrow> destroy_env \<Rightarrow> (c_int \<times> team_handle) result" where
  "team_destroy th env =
     (if ifindex th = 0 then Returns (- ENODEV, th)
      else if \<not> rtnl_link_alloc_ok env then Returns (- ENOMEM, th)
      else return_syserr (rtnl_link_delete_res env)
             (th\<lparr>trace := trace th @ [LinkDelete (ifindex th)]\<rparr>))"

text \<open>
  What the environment gives \<open>team_init\<close>: the results of the two \<open>genl_connect\<close>, of
  resolving the family and the multicast group, of joining the group, and the two fetches.
\<close>

record init_env =
  genl_connect_res :: c_int
  genl_connect_event_res :: c_int
  genl_ctrl_resolve_res :: c_int
  genl_ctrl_resolve_grp_res :: c_int
  add_membership_res :: c_int
  port_fetch :: fetch_env
  option_fetch :: fetch_env

definition team_init ::
  "(handler_ptr \<Rightarrow> team_change_handler) \<Rightarrow> team_handle \<Rightarrow> uint32_t \<Rightarrow> init_env \<Rightarrow>
   (c_int \<times> team_handle) result" where
  "team_init hmem th ifindex_arg env =
     (if ifindex_arg = 0 then Returns (- ENOENT, th)
      else
        (let th = th\<lparr>ifindex := ifindex_arg\<rparr>;
             th = th\<lparr>trace := trace th @ [DisableSeqCheck, GenlConnect NL_SOCK]\<rparr>;
             err = genl_connect_res env
         in if err \<noteq> 0 then return_syserr err th
            else
        (let th = th\<lparr>trace := trace th @ [GenlConnect NL_SOCK_EVENT]\<rparr>;
             err = genl_connect_event_res env
         in if err \<noteq> 0 then return_syserr err th
            else
        (let th = th\<lparr>family := genl_ctrl_resolve_res env, trace := trace th @ [CtrlResolve]\<rparr>
         in if family th <s 0 then return_syserr (family th) th
            else
        (let th = th\<lparr>trace := trace th @ [CtrlResolveGrp]\<rparr>;
             grp_id = genl_ctrl_resolve_grp_res env
         in if grp_id <s 0 then return_syserr grp_id th
            else
        (let th = th\<lparr>trace := trace th @ [AddMembership grp_id]\<rparr>;
             err = add_membership_res env
         in if err <s 0 then return_syserr err th
            else
              (case get_port_list hmem th (port_fetch env) of
                 Segfault \<Rightarrow> Segfault
               | Blocks \<Rightarrow> Blocks
               | Undefined \<Rightarrow> Undefined
               | Returns (err, th) \<Rightarrow>
                   if err \<noteq> 0 then Returns (err, th)
                   else
                     (case get_options hmem th (option_fetch env) of
                        Segfault \<Rightarrow> Segfault
                      | Blocks \<Rightarrow> Blocks
                      | Undefined \<Rightarrow> Undefined
                      | Returns (err, th) \<Rightarrow>
                          if err \<noteq> 0 then Returns (err, th)
                          else Returns (0, th)))))))))"

section \<open>Notions used to state the properties\<close>

text \<open>The number a run of decimal digits denotes.\<close>

definition dec_value :: "string \<Rightarrow> int" where
  "dec_value ds = foldl (\<lambda>acc c. acc * 10 + digit_val c) 0 ds"

text \<open>
  A text read as an integer: white space \<open>ws\<close>, a sign \<open>sg\<close> or none, digits \<open>ds\<close> (at least
  one), and a remainder \<open>rest\<close> that is empty or begins with white space.
\<close>

definition integer_text :: "string \<Rightarrow> string \<Rightarrow> string \<Rightarrow> string \<Rightarrow> bool" where
  "integer_text ws sg ds rest \<longleftrightarrow>
     (\<forall>c \<in> set ws. isspace c) \<and> sg \<in> {[], ''+'', ''-''} \<and> ds \<noteq> [] \<and>
     (\<forall>c \<in> set ds. isdigit c) \<and> (rest = [] \<or> isspace (hd rest))"

text \<open>A recorded call that came from the handler structure at address \<open>h\<close>.\<close>

definition called_from :: "handler_ptr \<Rightarrow> ext_call \<Rightarrow> bool" where
  "called_from h c = (case c of CallFunc p f v k \<Rightarrow> p = h | _ \<Rightarrow> False)"

text \<open>
  Two handler structures in the caller's memory, at addresses 1 and 2: the first is
  interested in port changes, every other one in option changes.
\<close>

definition port_and_option_handlers :: "handler_ptr \<Rightarrow> team_change_handler" where
  "port_and_option_handlers h =
     (if h = 1 then \<lparr>func = 10, type_mask = TEAM_PORT_CHANGE, func_priv = 100\<rparr>
      else \<lparr>func = 20, type_mask = TEAM_OPTION_CHANGE, func_priv = 200\<rparr>)"

text \<open>Handler structures that all name the same callback function.\<close>

definition same_func_handlers :: "handler_ptr \<Rightarrow> team_change_handler" where
  "same_func_handlers h = \<lparr>func = 10, type_mask = TEAM_PORT_CHANGE, func_priv = h\<rparr>"

text \<open>
  A port item that the loop takes: it parses, has the ifindex attribute, and the port can be
  allocated. \<open>port_of_item\<close> is the port such an item gives.
\<close>

definition port_item_ok :: "team_attr_port nested \<times> bool \<Rightarrow> bool" where
  "port_item_ok item =
     (case fst item of
        ParseError \<Rightarrow> False
      | Parsed pa \<Rightarrow> pa TEAM_ATTR_PORT_IFINDEX \<noteq> None \<and> snd item)"

definition port_of_item :: "team_attr_port nested \<times> bool \<Rightarrow> team_port" where
  "port_of_item item =
     (case fst item of
        ParseError \<Rightarrow> zeroed_port
      | Parsed pa \<Rightarrow>
          (case pa TEAM_ATTR_PORT_IFINDEX of None \<Rightarrow> zeroed_port | Some a \<Rightarrow> fill_port pa a))"

text \<open>
  An option item that does not end the loop: it parses and has name, type and data. Such an
  item is usable for a name when it carries that name and a type the decoder knows;
  \<open>option_of_item\<close> is the option a usable item gives.
\<close>

definition option_item_complete :: "team_attr_option nested \<times> bool \<Rightarrow> bool" where
  "option_item_complete item =
     (case fst item of
        ParseError \<Rightarrow> False
      | Parsed oa \<Rightarrow> oa TEAM_ATTR_OPTION_NAME \<noteq> None \<and> oa TEAM_ATTR_OPTION_TYPE \<noteq> None \<and>
          oa TEAM_ATTR_OPTION_DATA \<noteq> None)"

definition option_of_item :: "team_attr_option nested \<times> bool \<Rightarrow> team_option option" where
  "option_of_item item =
     (case fst item of
        ParseError \<Rightarrow> None
      | Parsed oa \<Rightarrow>
          (case (oa TEAM_ATTR_OPTION_NAME, oa TEAM_ATTR_OPTION_TYPE, oa TEAM_ATTR_OPTION_DATA) of
             (Some na, Some ta, Some da) \<Rightarrow>
               if nla_get_u32 ta = NLA_U32 then
                 Some \<lparr>option_type = TEAM_OPTION_TYPE_U32, option_name = nla_get_string na,
                        option_data = DataU32 (nla_get_u32 da),
                        option_changed = (oa TEAM_ATTR_OPTION_CHANGED \<noteq> None)\<rparr>
               else if nla_get_u32 ta = NLA_STRING then
                 Some \<lparr>option_type = TEAM_OPTION_TYPE_STRING, option_name = nla_get_string na,
                        option_data = DataString (nla_get_string da),
                        option_changed = (oa TEAM_ATTR_OPTION_CHANGED \<noteq> None)\<rparr>
               else None
           | _ \<Rightarrow> None))"

definition usable_as :: "string \<Rightarrow> team_attr_option nested \<times> bool \<Rightarrow> bool" where
  "usable_as name item =
     (case option_of_item item of None \<Rightarrow> False | Some option \<Rightarrow> option_name option = name)"

text \<open>
  Sample attributes, a context bound to device 5, and sample messages for that device.
\<close>

definition attr_u32 :: "uint32_t \<Rightarrow> nlattr" where
  "attr_u32 v = \<lparr>nla_get_u32 = v, nla_get_u8 = ucast v, nla_get_string = []\<rparr>"

definition attr_string :: "string \<Rightarrow> nlattr" where
  "attr_string s = \<lparr>nla_get_u32 = 0, nla_get_u8 = 0, nla_get_string = s\<rparr>"

definition bound_handle :: team_handle where
  "bound_handle = zeroed_handle\<lparr>ifindex := 5\<rparr>"

definition port_item :: "uint32_t \<Rightarrow> team_attr_port nested \<times> bool" where
  "port_item i =
     (Parsed [TEAM_ATTR_PORT_IFINDEX \<mapsto> attr_u32 i, TEAM_ATTR_PORT_LINKUP \<mapsto> attr_u32 0,
              TEAM_ATTR_PORT_SPEED \<mapsto> attr_u32 1000], True)"

definition port_item_no_ifindex :: "team_attr_port nested \<times> bool" where
  "port_item_no_ifindex = (Parsed [TEAM_ATTR_PORT_SPEED \<mapsto> attr_u32 1000], True)"

definition option_item :: "string \<Rightarrow> c_int \<Rightarrow> nlattr \<Rightarrow> team_attr_option nested \<times> bool" where
  "option_item name nla_type data =
     (Parsed [TEAM_ATTR_OPTION_NAME \<mapsto> attr_string name, TEAM_ATTR_OPTION_TYPE \<mapsto> attr_u32 nla_type,
              TEAM_ATTR_OPTION_DATA \<mapsto> data], True)"

definition option_item_no_data :: "string \<Rightarrow> team_attr_option nested \<times> bool" where
  "option_item_no_data name =
     (Parsed [TEAM_ATTR_OPTION_NAME \<mapsto> attr_string name, TEAM_ATTR_OPTION_TYPE \<mapsto> attr_u32 NLA_U32],
      True)"

definition port_msg :: "uint32_t option \<Rightarrow> team_attr_port nl_items \<Rightarrow> nl_msg" where
  "port_msg dev items =
     \<lparr>genl_cmd = TEAM_CMD_PORT_LIST_GET, ATTR_TEAM_IFINDEX = map_option attr_u32 dev,
      ATTR_LIST_PORT = Some items, ATTR_LIST_OPTION = None\<rparr>"

definition option_msg :: "uint32_t option \<Rightarrow> team_attr_option nl_items \<Rightarrow> nl_msg" where
  "option_msg dev items =
     \<lparr>genl_cmd = TEAM_CMD_OPTIONS_GET, ATTR_TEAM_IFINDEX = map_option attr_u32 dev,
      ATTR_LIST_PORT = None, ATTR_LIST_OPTION = Some items\<rparr>"

text \<open>
  A list of ports, or of options, that is the complete decoding of a message: every item of
  the message's list attribute was taken or examined, none ended the loop early.
\<close>

definition port_snapshot_of :: "nl_msg \<Rightarrow> team_port list \<Rightarrow> bool" where
  "port_snapshot_of msg l =
     (case ATTR_LIST_PORT msg of
        None \<Rightarrow> False
      | Some items \<Rightarrow> (\<forall>item \<in> set items. port_item_ok item) \<and> l = map port_of_item items)"

definition option_snapshot_of :: "nl_msg \<Rightarrow> team_option list \<Rightarrow> bool" where
  "option_snapshot_of msg l =
     (case ATTR_LIST_OPTION msg of
        None \<Rightarrow> False
      | Some items \<Rightarrow>
          (\<forall>item \<in> set items. option_item_complete item) \<and> option_list_loop items [] = Built l)"


text \<open>Environments in which every allocation and connection succeeds.\<close>

definition alloc_env_ok :: alloc_env where
  "alloc_env_ok = \<lparr>malloc_th_ok = True, getenv_TEAM_LOG = None, nl_sock_ok = True,
     nl_sock_event_ok = True, nl_cli_sock_ok = True, nl_cli_connect_res = 0,
     link_cache_ok = True\<rparr>"

definition destroy_env_ok :: destroy_env where
  "destroy_env_ok = \<lparr>rtnl_link_alloc_ok = True, rtnl_link_delete_res = 0\<rparr>"

definition init_env_ok :: init_env where
  "init_env_ok = \<lparr>genl_connect_res = 0, genl_connect_event_res = 0, genl_ctrl_resolve_res = 20,
     genl_ctrl_resolve_grp_res = 3, add_membership_res = 0,
     port_fetch = \<lparr>nlmsg_alloc_ok = True, nla_put_ok = True, send_res = 0,
       events = [EvValid \<lparr>genl_cmd = TEAM_CMD_PORT_LIST_GET, ATTR_TEAM_IFINDEX = None,
         ATTR_LIST_PORT = None, ATTR_LIST_OPTION = None\<rparr>, EvAck]\<rparr>,
     option_fetch = \<lparr>nlmsg_alloc_ok = True, nla_put_ok = True, send_res = 0,
       events = [EvAck]\<rparr>\<rparr>"



section \<open>Error translation\<close>

text \<open>
  C5, as the code has it. \<open>nl2syserr\<close> is a function of its argument alone, and it has a
  value for every 32-bit integer except the most negative one, where the \<open>abs\<close> it starts
  with is undefined. The sign of the argument is dropped, so each of the sixteen libnl
  identifiers, given as itself or negated as libnl returns it, maps to its errno value;
  zero maps to zero; and every other code but the most negative \<open>int\<close> maps to \<open>EINVAL\<close>.
\<close>

theorem nl2syserr_mapping:
  "nl2syserr 0 = Some 0 \<and>
   nl2syserr NLE_EXIST = Some EEXIST \<and> nl2syserr (- NLE_EXIST) = Some EEXIST \<and>
   nl2syserr NLE_NOADDR = Some EADDRNOTAVAIL \<and> nl2syserr (- NLE_NOADDR) = Some EADDRNOTAVAIL \<and>
   nl2syserr NLE_OBJ_NOTFOUND = Some ENOENT \<and> nl2syserr (- NLE_OBJ_NOTFOUND) = Some ENOENT \<and>
   nl2syserr NLE_INTR = Some EINTR \<and> nl2syserr (- NLE_INTR) = Some EINTR \<and>
   nl2syserr NLE_AGAIN = Some EAGAIN \<and> nl2syserr (- NLE_AGAIN) = Some EAGAIN \<and>
   nl2syserr NLE_BAD_SOCK = Some ENOTSOCK \<and> nl2syserr (- NLE_BAD_SOCK) = Some ENOTSOCK \<and>
   nl2syserr NLE_NOACCESS = Some EACCES \<and> nl2syserr (- NLE_NOACCESS) = Some EACCES \<and>
   nl2syserr NLE_INVAL = Some EINVAL \<and> nl2syserr (- NLE_INVAL) = Some EINVAL \<and>
   nl2syserr NLE_NOMEM = Some ENOMEM \<and> nl2syserr (- NLE_NOMEM) = Some ENOMEM \<and>
   nl2syserr NLE_AF_NOSUPPORT = Some EAFNOSUPPORT \<and> nl2syserr (- NLE_AF_NOSUPPORT) = Some EAFNOSUPPORT \<and>
   nl2syserr NLE_PROTO_MISMATCH = Some EPROTONOSUPPORT \<and> nl2syserr (- NLE_PROTO_MISMATCH) = Some EPROTONOSUPPORT \<and>
   nl2syserr NLE_OPNOTSUPP = Some EOPNOTSUPP \<and> nl2syserr (- NLE_OPNOTSUPP) = Some EOPNOTSUPP \<and>
   nl2syserr NLE_PERM = Some EPERM \<and> nl2syserr (- NLE_PERM) = Some EPERM \<and>
   nl2syserr NLE_BUSY = Some EBUSY \<and> nl2syserr (- NLE_BUSY) = Some EBUSY \<and>
   nl2syserr NLE_RANGE = Some ERANGE \<and> nl2syserr (- NLE_RANGE) = Some ERANGE \<and>
   nl2syserr NLE_NODEV = Some ENODEV \<and> nl2syserr (- NLE_NODEV) = Some ENODEV \<and>
   (c \<noteq> INT_MIN \<longrightarrow> nl2syserr c \<noteq> None) \<and>
   (c \<noteq> INT_MIN \<and> c \<noteq> 0 \<and>
    c \<notin> {NLE_EXIST, NLE_NOADDR, NLE_OBJ_NOTFOUND, NLE_INTR, NLE_AGAIN, NLE_BAD_SOCK,
       NLE_NOACCESS, NLE_INVAL, NLE_NOMEM, NLE_AF_NOSUPPORT, NLE_PROTO_MISMATCH, NLE_OPNOTSUPP,
       NLE_PERM, NLE_BUSY, NLE_RANGE, NLE_NODEV} \<and>
    - c \<notin> {NLE_EXIST, NLE_NOADDR, NLE_OBJ_NOTFOUND, NLE_INTR, NLE_AGAIN, NLE_BAD_SOCK,
       NLE_NOACCESS, NLE_INVAL, NLE_NOMEM, NLE_AF_NOSUPPORT, NLE_PROTO_MISMATCH, NLE_OPNOTSUPP,
       NLE_PERM, NLE_BUSY, NLE_RANGE, NLE_NODEV} \<longrightarrow>
    nl2syserr c = Some EINVAL)"
proof -
  have known: "nl2syserr 0 = Some 0"
    "nl2syserr NLE_EXIST = Some EEXIST" "nl2syserr (- NLE_EXIST) = Some EEXIST"
    "nl2syserr NLE_NOADDR = Some EADDRNOTAVAIL" "nl2syserr (- NLE_NOADDR) = Some EADDRNOTAVAIL"
    "nl2syserr NLE_OBJ_NOTFOUND = Some ENOENT" "nl2syserr (- NLE_OBJ_NOTFOUND) = Some ENOENT"
    "nl2syserr NLE_INTR = Some EINTR" "nl2syserr (- NLE_INTR) = Some EINTR"
    "nl2syserr NLE_AGAIN = Some EAGAIN" "nl2syserr (- NLE_AGAIN) = Some EAGAIN"
    "nl2syserr NLE_BAD_SOCK = Some ENOTSOCK" "nl2syserr (- NLE_BAD_SOCK) = Some ENOTSOCK"
    "nl2syserr NLE_NOACCESS = Some EACCES" "nl2syserr (- NLE_NOACCESS) = Some EACCES"
    "nl2syserr NLE_INVAL = Some EINVAL" "nl2syserr (- NLE_INVAL) = Some EINVAL"
    "nl2syserr NLE_NOMEM = Some ENOMEM" "nl2syserr (- NLE_NOMEM) = Some ENOMEM"
    "nl2syserr NLE_AF_NOSUPPORT = Some EAFNOSUPPORT" "nl2syserr (- NLE_AF_NOSUPPORT) = Some EAFNOSUPPORT"
    "nl2syserr NLE_PROTO_MISMATCH = Some EPROTONOSUPPORT" "nl2syserr (- NLE_PROTO_MISMATCH) = Some EPROTONOSUPPORT"
    "nl2syserr NLE_OPNOTSUPP = Some EOPNOTSUPP" "nl2syserr (- NLE_OPNOTSUPP) = Some EOPNOTSUPP"
    "nl2syserr NLE_PERM = Some EPERM" "nl2syserr (- NLE_PERM) = Some EPERM"
    "nl2syserr NLE_BUSY = Some EBUSY" "nl2syserr (- NLE_BUSY) = Some EBUSY"
    "nl2syserr NLE_RANGE = Some ERANGE" "nl2syserr (- NLE_RANGE) = Some ERANGE"
    "nl2syserr NLE_NODEV = Some ENODEV" "nl2syserr (- NLE_NODEV) = Some ENODEV"
    by (simp_all add: nl2syserr_def c_abs_def INT_MIN_def NLE_defs errno_defs word_sless_alt)
  have total: "c \<noteq> INT_MIN \<longrightarrow> nl2syserr c \<noteq> None"
    by (simp add: nl2syserr_def c_abs_def)
  have other: "c \<noteq> INT_MIN \<and> c \<noteq> 0 \<and>
    c \<notin> {NLE_EXIST, NLE_NOADDR, NLE_OBJ_NOTFOUND, NLE_INTR, NLE_AGAIN, NLE_BAD_SOCK,
       NLE_NOACCESS, NLE_INVAL, NLE_NOMEM, NLE_AF_NOSUPPORT, NLE_PROTO_MISMATCH, NLE_OPNOTSUPP,
       NLE_PERM, NLE_BUSY, NLE_RANGE, NLE_NODEV} \<and>
    - c \<notin> {NLE_EXIST, NLE_NOADDR, NLE_OBJ_NOTFOUND, NLE_INTR, NLE_AGAIN, NLE_BAD_SOCK,
       NLE_NOACCESS, NLE_INVAL, NLE_NOMEM, NLE_AF_NOSUPPORT, NLE_PROTO_MISMATCH, NLE_OPNOTSUPP,
       NLE_PERM, NLE_BUSY, NLE_RANGE, NLE_NODEV} \<longrightarrow>
    nl2syserr c = Some EINVAL"
    by (auto simp: nl2syserr_def c_abs_def)
  from known total other show ?thesis by (intro conjI)
qed

theorem nl2syserr_mapping_witness:
  "(1234 :: c_int) \<noteq> INT_MIN \<and> nl2syserr 1234 = Some EINVAL \<and>
   (- 1 :: c_int) \<noteq> INT_MIN \<and> nl2syserr (- 1) = Some EINVAL"
proof -
  have h: "(1234 :: c_int) \<noteq> INT_MIN \<and> (1234 :: c_int) \<noteq> 0 \<and>
    (1234 :: c_int) \<notin> {NLE_EXIST, NLE_NOADDR, NLE_OBJ_NOTFOUND, NLE_INTR, NLE_AGAIN, NLE_BAD_SOCK,
       NLE_NOACCESS, NLE_INVAL, NLE_NOMEM, NLE_AF_NOSUPPORT, NLE_PROTO_MISMATCH, NLE_OPNOTSUPP,
       NLE_PERM, NLE_BUSY, NLE_RANGE, NLE_NODEV} \<and>
    - (1234 :: c_int) \<notin> {NLE_EXIST, NLE_NOADDR, NLE_OBJ_NOTFOUND, NLE_INTR, NLE_AGAIN, NLE_BAD_SOCK,
       NLE_NOACCESS, NLE_INVAL, NLE_NOMEM, NLE_AF_NOSUPPORT, NLE_PROTO_MISMATCH, NLE_OPNOTSUPP,
       NLE_PERM, NLE_BUSY, NLE_RANGE, NLE_NODEV}"
    by (simp add: INT_MIN_def NLE_defs)
  have g: "(- 1 :: c_int) \<noteq> INT_MIN \<and> (- 1 :: c_int) \<noteq> 0 \<and>
    (- 1 :: c_int) \<notin> {NLE_EXIST, NLE_NOADDR, NLE_OBJ_NOTFOUND, NLE_INTR, NLE_AGAIN, NLE_BAD_SOCK,
       NLE_NOACCESS, NLE_INVAL, NLE_NOMEM, NLE_AF_NOSUPPORT, NLE_PROTO_MISMATCH, NLE_OPNOTSUPP,
       NLE_PERM, NLE_BUSY, NLE_RANGE, NLE_NODEV} \<and>
    - (- 1 :: c_int) \<notin> {NLE_EXIST, NLE_NOADDR, NLE_OBJ_NOTFOUND, NLE_INTR, NLE_AGAIN, NLE_BAD_SOCK,
       NLE_NOACCESS, NLE_INVAL, NLE_NOMEM, NLE_AF_NOSUPPORT, NLE_PROTO_MISMATCH, NLE_OPNOTSUPP,
       NLE_PERM, NLE_BUSY, NLE_RANGE, NLE_NODEV}"
    by (simp add: INT_MIN_def NLE_defs)
  from h nl2syserr_mapping [of 1234] g nl2syserr_mapping [of "- 1"] show ?thesis by blast
qed

text \<open>
  The claim as worded has the translation defined on all integer inputs. It begins with
  \<open>abs\<close>, which C does not define for the most negative \<open>int\<close>: there the translation has
  no value.
\<close>

theorem nl2syserr_int_min_counterexample:
  "nl2syserr (- 2147483648) = None"
  by (simp add: nl2syserr_def c_abs_def INT_MIN_def)

section \<open>Log priority from the environment\<close>

lemma isspace_not_digit: "isspace c \<Longrightarrow> \<not> isdigit c"
  by (auto simp: isspace_def isdigit_def)

lemma sign_not_space: "\<not> isspace CHR ''+''" "\<not> isspace CHR ''-''"
  by (simp_all add: isspace_def)

lemma sign_not_digit: "\<not> isdigit CHR ''+''" "\<not> isdigit CHR ''-''"
  by (simp_all add: isdigit_def)

lemma isdigit_not_space: "isdigit c \<Longrightarrow> \<not> isspace c"
  using isspace_not_digit by blast

lemma isdigit_not_sign: "isdigit c \<Longrightarrow> c \<noteq> CHR ''+'' \<and> c \<noteq> CHR ''-''"
  using sign_not_digit by blast

lemma skip_space_id: "t = [] \<or> \<not> isspace (hd t) \<Longrightarrow> skip_space t = t"
  by (cases t) auto

lemma skip_space_append:
  "\<forall>c \<in> set ws. isspace c \<Longrightarrow> t = [] \<or> \<not> isspace (hd t) \<Longrightarrow> skip_space (ws @ t) = t"
  by (induction ws) (simp_all add: skip_space_id)

lemma scan_digits_append:
  "\<forall>c \<in> set ds. isdigit c \<Longrightarrow> rest = [] \<or> \<not> isdigit (hd rest) \<Longrightarrow>
   scan_digits acc (ds @ rest) = (foldl (\<lambda>acc c. acc * 10 + digit_val c) acc ds, rest)"
proof (induction ds arbitrary: acc)
  case Nil
  then show ?case by (cases rest) auto
next
  case (Cons d ds)
  then show ?case by simp
qed

lemma skip_space_split:
  "\<exists>ws. s = ws @ skip_space s \<and> (\<forall>c \<in> set ws. isspace c)"
proof (induction s)
  case Nil
  then show ?case by simp
next
  case (Cons c cs)
  show ?case
  proof (cases "isspace c")
    case True
    from Cons obtain ws where "cs = ws @ skip_space cs" "\<forall>c \<in> set ws. isspace c" by blast
    with True have "c # cs = (c # ws) @ skip_space (c # cs) \<and> (\<forall>c \<in> set (c # ws). isspace c)"
      by simp
    then show ?thesis by blast
  next
    case False
    then have "c # cs = [] @ skip_space (c # cs) \<and> (\<forall>c \<in> set []. isspace c)" by simp
    then show ?thesis by blast
  qed
qed

lemma scan_sign_split:
  "scan_sign t = (neg, u) \<Longrightarrow> \<exists>sg. t = sg @ u \<and> sg \<in> {[], ''+'', ''-''}"
  by (auto simp: scan_sign_def split: list.splits if_splits)

lemma scan_digits_split:
  "scan_digits acc u = (v, e) \<Longrightarrow> \<exists>ds. u = ds @ e \<and> (\<forall>c \<in> set ds. isdigit c) \<and>
     (e = [] \<or> \<not> isdigit (hd e)) \<and> (u \<noteq> [] \<and> isdigit (hd u) \<longrightarrow> ds \<noteq> [])"
proof (induction acc u arbitrary: v e rule: scan_digits.induct)
  case (1 acc)
  then show ?case by simp
next
  case (2 acc c cs)
  show ?case
  proof (cases "isdigit c")
    case True
    with 2 obtain ds where "cs = ds @ e" "\<forall>c \<in> set ds. isdigit c" "e = [] \<or> \<not> isdigit (hd e)"
      by fastforce
    with True have "c # cs = (c # ds) @ e \<and> (\<forall>c \<in> set (c # ds). isdigit c) \<and>
       (e = [] \<or> \<not> isdigit (hd e)) \<and> c # ds \<noteq> []" by simp
    then show ?thesis by blast
  next
    case False
    with 2 have "e = c # cs" by simp
    with False have "c # cs = [] @ e \<and> (\<forall>c \<in> set []. isdigit c) \<and>
       (e = [] \<or> \<not> isdigit (hd e))" by simp
    with False show ?thesis by (metis list.sel(1))
  qed
qed

lemma strtol_integer_text:
  assumes "integer_text ws sg ds rest"
  shows "strtol (ws @ sg @ ds @ rest) =
           (clamp_long (if sg = ''-'' then - dec_value ds else dec_value ds), rest)"
proof -
  from assms have ws: "\<forall>c \<in> set ws. isspace c" and sg: "sg \<in> {[], ''+'', ''-''}"
    and ds: "ds \<noteq> []" "\<forall>c \<in> set ds. isdigit c" and rest: "rest = [] \<or> isspace (hd rest)"
    by (simp_all add: integer_text_def)
  from ds obtain d ds' where dds: "ds = d # ds'" and d: "isdigit d" by (cases ds) auto
  have hd_ok: "\<not> isspace (hd (sg @ ds @ rest))"
    using sg dds d by (auto simp: sign_not_space isdigit_not_space)
  have skip: "skip_space (ws @ sg @ ds @ rest) = sg @ ds @ rest"
    using ws hd_ok dds by (intro skip_space_append) auto
  have sign: "scan_sign (sg @ ds @ rest) = (sg = ''-'', ds @ rest)"
    using sg dds d isdigit_not_sign[OF d] by (auto simp: scan_sign_def)
  have rest': "rest = [] \<or> \<not> isdigit (hd rest)"
    using rest isspace_not_digit by blast
  have scan: "scan_digits 0 (ds @ rest) = (dec_value ds, rest)"
    using scan_digits_append[OF ds(2) rest', of 0] by (simp add: dec_value_def)
  have u: "ds @ rest = d # (ds' @ rest)" by (simp add: dds)
  have "strtol (ws @ sg @ ds @ rest) =
          (case ds @ rest of
             [] \<Rightarrow> (0, ws @ sg @ ds @ rest)
           | c # cs \<Rightarrow>
               if isdigit c then
                 (let (v, endptr) = scan_digits 0 (ds @ rest)
                  in (clamp_long (if sg = ''-'' then - v else v), endptr))
               else (0, ws @ sg @ ds @ rest))"
    unfolding strtol_def skip sign by simp
  also have "\<dots> = (let (v, endptr) = scan_digits 0 (ds @ rest)
                    in (clamp_long (if sg = ''-'' then - v else v), endptr))"
    unfolding u using d by simp
  finally show ?thesis by (simp add: scan)
qed

lemma strtol_cases:
  "strtol s = (0, s) \<or>
   (\<exists>ws sg ds rest. s = ws @ sg @ ds @ rest \<and> (\<forall>c \<in> set ws. isspace c) \<and>
      sg \<in> {[], ''+'', ''-''} \<and> ds \<noteq> [] \<and> (\<forall>c \<in> set ds. isdigit c) \<and> snd (strtol s) = rest)"
proof -
  obtain ws where ws: "s = ws @ skip_space s" "\<forall>c \<in> set ws. isspace c"
    using skip_space_split by blast
  obtain neg u where su: "scan_sign (skip_space s) = (neg, u)" by (cases "scan_sign (skip_space s)")
  then obtain sg where sg: "skip_space s = sg @ u" "sg \<in> {[], ''+'', ''-''}"
    using scan_sign_split by blast
  show ?thesis
  proof (cases "u \<noteq> [] \<and> isdigit (hd u)")
    case False
    then have "strtol s = (0, s)"
      by (auto simp: strtol_def su split: list.splits)
    then show ?thesis by simp
  next
    case True
    obtain v e where sc: "scan_digits 0 u = (v, e)" by (cases "scan_digits 0 u")
    then obtain ds where ds: "u = ds @ e" "\<forall>c \<in> set ds. isdigit c" "ds \<noteq> []"
      using scan_digits_split[OF sc] True by blast
    from True have "snd (strtol s) = e"
      by (auto simp: strtol_def su sc split: list.splits)
    moreover have "s = ws @ sg @ ds @ e" using ws sg ds by simp
    ultimately show ?thesis using ws sg ds by blast
  qed
qed

lemma strncmp_prefix: "length t = n \<Longrightarrow> strncmp_eq s t n \<longleftrightarrow> prefix t s"
  by (auto simp: strncmp_eq_def prefix_def) (metis append_take_drop_id)

lemma strtol_token:
  "s = c # cs \<Longrightarrow> \<not> isspace c \<Longrightarrow> \<not> isdigit c \<Longrightarrow> c \<noteq> CHR ''+'' \<Longrightarrow> c \<noteq> CHR ''-'' \<Longrightarrow>
   strtol s = (0, s)"
  by (simp add: strtol_def scan_sign_def)

lemma log_priority_no_conv:
  "s = c # cs \<Longrightarrow> \<not> isspace c \<Longrightarrow> \<not> isdigit c \<Longrightarrow> c \<noteq> CHR ''+'' \<Longrightarrow> c \<noteq> CHR ''-'' \<Longrightarrow>
   log_priority s =
     (if prefix ''err'' s then LOG_ERR else if prefix ''info'' s then LOG_INFO
      else if prefix ''debug'' s then LOG_DEBUG else 0)"
  by (simp add: log_priority_def strtol_token strncmp_prefix)

lemma log_priority_integer:
  "integer_text ws sg ds rest \<Longrightarrow>
   v = (if sg = ''-'' then - dec_value ds else dec_value ds) \<Longrightarrow>
   - (2 ^ 31) \<le> v \<Longrightarrow> v < 2 ^ 31 \<Longrightarrow> sint (log_priority (ws @ sg @ ds @ rest)) = v"
proof -
  assume it: "integer_text ws sg ds rest"
    and v: "v = (if sg = ''-'' then - dec_value ds else dec_value ds)"
    and r: "- (2 ^ 31) \<le> v" "v < 2 ^ 31"
  from r have cl: "clamp_long v = v" by (simp add: clamp_long_def LONG_MAX_def LONG_MIN_def)
  from it have rest: "rest = [] \<or> isspace (hd rest)" by (simp add: integer_text_def)
  have "log_priority (ws @ sg @ ds @ rest) = word_of_int v"
    using rest cl v by (simp add: log_priority_def strtol_integer_text[OF it])
  moreover have "sint (word_of_int v :: 32 word) = v"
    using r by (simp add: sint_sbintrunc' signed_take_bit_int_eq_self)
  ultimately show ?thesis by simp
qed

lemma log_priority_integer_value:
  assumes "integer_text ws sg ds rest"
    and "v = (if sg = ''-'' then - dec_value ds else dec_value ds)"
  shows "log_priority (ws @ sg @ ds @ rest) = word_of_int (clamp_long v)"
proof -
  from assms(1) have "rest = [] \<or> isspace (hd rest)" by (simp add: integer_text_def)
  then show ?thesis
    using assms(2) by (simp add: log_priority_def strtol_integer_text [OF assms(1)])
qed

lemma log_priority_err: "prefix ''err'' s \<Longrightarrow> log_priority s = LOG_ERR"
  by (auto simp: prefix_def log_priority_no_conv isspace_def isdigit_def)
lemma log_priority_info: "prefix ''info'' s \<Longrightarrow> log_priority s = LOG_INFO"
  by (auto simp: prefix_def log_priority_no_conv isspace_def isdigit_def)
lemma log_priority_debug: "prefix ''debug'' s \<Longrightarrow> log_priority s = LOG_DEBUG"
  by (auto simp: prefix_def log_priority_no_conv isspace_def isdigit_def)

lemma log_priority_other:
  assumes no: "\<forall>ws sg ds rest. s = ws @ sg @ ds @ rest \<longrightarrow> \<not> integer_text ws sg ds rest"
    and np: "\<not> prefix ''err'' s" "\<not> prefix ''info'' s" "\<not> prefix ''debug'' s"
  shows "log_priority s = 0"
proof -
  obtain v e where st: "strtol s = (v, e)" by (cases "strtol s")
  show ?thesis
  proof (cases "e = [] \<or> isspace (hd e)")
    case False
    then show ?thesis using np by (simp add: log_priority_def st strncmp_prefix)
  next
    case True
    from strtol_cases[of s] show ?thesis
    proof
      assume "strtol s = (0, s)"
      with st True show ?thesis by (simp add: log_priority_def)
    next
      assume "\<exists>ws sg ds rest. s = ws @ sg @ ds @ rest \<and> (\<forall>c \<in> set ws. isspace c) \<and>
        sg \<in> {[], ''+'', ''-''} \<and> ds \<noteq> [] \<and> (\<forall>c \<in> set ds. isdigit c) \<and> snd (strtol s) = rest"
      then obtain ws sg ds rest where "s = ws @ sg @ ds @ rest" "\<forall>c \<in> set ws. isspace c"
        "sg \<in> {[], ''+'', ''-''}" "ds \<noteq> []" "\<forall>c \<in> set ds. isdigit c" "snd (strtol s) = rest"
        by blast
      with st True have "s = ws @ sg @ ds @ rest \<and> integer_text ws sg ds rest"
        by (simp add: integer_text_def)
      with no show ?thesis by blast
    qed
  qed
qed


lemma integer_text_first:
  assumes "integer_text ws sg ds rest"
  shows "\<exists>c cs. ws @ sg @ ds @ rest = c # cs \<and>
           (isspace c \<or> c = CHR ''+'' \<or> c = CHR ''-'' \<or> isdigit c)"
proof (cases ws)
  case (Cons w ws')
  with assms show ?thesis by (auto simp: integer_text_def)
next
  case Nil
  from assms obtain d ds' where "ds = d # ds'" "isdigit d"
    by (cases ds) (auto simp: integer_text_def)
  with assms Nil show ?thesis by (auto simp: integer_text_def)
qed

text \<open>
  C7, as the code has it. \<open>TEAM_LOG\<close> sets the initial priority of a new context to
  \<open>log_priority\<close> of its text (\<open>LOG_ERR\<close> when the variable is unset), and:
  \<^item> a text made of optional white space, an optional sign, one or more digits and then
    nothing or a white-space character followed by anything gives that number when the
    number fits an \<open>int\<close>; in general it gives the number, clamped to the range of a
    64-bit \<open>long\<close>, cut to its low 32 bits, so \<open>4294967303\<close> gives 7;
  \<^item> a text that begins with \<open>err\<close>, \<open>info\<close> or \<open>debug\<close> gives \<open>LOG_ERR\<close>,
    \<open>LOG_INFO\<close> or \<open>LOG_DEBUG\<close>, whatever follows the token;
  \<^item> a text that has neither that integer shape nor such a beginning gives 0.
  Every text is of one of the three kinds.
\<close>

theorem log_priority_cases:
  "(integer_text ws sg ds rest \<and> v = (if sg = ''-'' then - dec_value ds else dec_value ds) \<and>
      - (2 ^ 31) \<le> v \<and> v < 2 ^ 31 \<longrightarrow>
    sint (log_priority (ws @ sg @ ds @ rest)) = v) \<and>
   (integer_text ws sg ds rest \<and> v = (if sg = ''-'' then - dec_value ds else dec_value ds) \<longrightarrow>
    log_priority (ws @ sg @ ds @ rest) = word_of_int (clamp_long v)) \<and>
   (prefix ''err'' s \<longrightarrow> log_priority s = LOG_ERR) \<and>
   (prefix ''info'' s \<longrightarrow> log_priority s = LOG_INFO) \<and>
   (prefix ''debug'' s \<longrightarrow> log_priority s = LOG_DEBUG) \<and>
   ((\<forall>w g d r. s = w @ g @ d @ r \<longrightarrow> \<not> integer_text w g d r) \<and>
      \<not> prefix ''err'' s \<and> \<not> prefix ''info'' s \<and> \<not> prefix ''debug'' s \<longrightarrow>
    log_priority s = 0) \<and>
   (team_alloc env = Some th \<longrightarrow>
    th_log_priority th =
      (case getenv_TEAM_LOG env of None \<Rightarrow> LOG_ERR | Some e \<Rightarrow> log_priority e))"
proof -
  have alloc: "team_alloc env = Some th \<longrightarrow>
    th_log_priority th =
      (case getenv_TEAM_LOG env of None \<Rightarrow> LOG_ERR | Some e \<Rightarrow> log_priority e)"
    by (auto simp: team_alloc_def Let_def team_set_log_priority_def
             split: if_splits option.splits)
  show ?thesis
    using log_priority_integer [of ws sg ds rest v]
      log_priority_integer_value [of ws sg ds rest v] log_priority_err [of s]
      log_priority_info [of s] log_priority_debug [of s] log_priority_other [of s] alloc
    by blast
qed

theorem log_priority_cases_witness:
  "sint (log_priority '' -42 x'') = - 42 \<and> log_priority ''error'' = LOG_ERR \<and>
   log_priority ''information'' = LOG_INFO \<and> log_priority ''debugging'' = LOG_DEBUG \<and>
   log_priority ''verbose'' = 0 \<and> log_priority ''4294967303'' = 7 \<and>
   th_log_priority (the (team_alloc \<lparr>malloc_th_ok = True, getenv_TEAM_LOG = Some ''7'',
      nl_sock_ok = True, nl_sock_event_ok = True, nl_cli_sock_ok = True,
      nl_cli_connect_res = 0, link_cache_ok = True\<rparr>)) = log_priority ''7''"
proof -
  have it: "integer_text '' '' ''-'' ''42'' '' x''"
    by (simp add: integer_text_def isspace_def isdigit_def)
  have dv: "(- 42 :: int) = (if ''-'' = ''-'' then - dec_value ''42'' else dec_value ''42'')"
    by (simp add: dec_value_def digit_val_def)
  have rg: "- (2 ^ 31) \<le> (- 42 :: int)" "(- 42 :: int) < 2 ^ 31" by simp_all
  have "sint (log_priority ('' '' @ ''-'' @ ''42'' @ '' x'')) = - 42"
    using log_priority_cases [of "'' ''" "''-''" "''42''" "'' x''" "- 42"] it dv rg by blast
  then have 1: "sint (log_priority '' -42 x'') = - 42" by simp
  have 2: "log_priority ''error'' = LOG_ERR"
    using log_priority_cases [of _ _ _ _ _ "''error''"] by simp
  have 3: "log_priority ''information'' = LOG_INFO"
    using log_priority_cases [of _ _ _ _ _ "''information''"] by simp
  have 4: "log_priority ''debugging'' = LOG_DEBUG"
    using log_priority_cases [of _ _ _ _ _ "''debugging''"] by simp
  have no: "\<forall>ws sg ds rest. ''verbose'' = ws @ sg @ ds @ rest \<longrightarrow> \<not> integer_text ws sg ds rest"
  proof (intro allI impI notI)
    fix ws sg ds rest
    assume eq: "''verbose'' = ws @ sg @ ds @ rest" and "integer_text ws sg ds rest"
    from integer_text_first [OF this(2)] eq show False
      by (auto simp: isspace_def isdigit_def)
  qed
  have 5: "log_priority ''verbose'' = 0"
    using log_priority_cases [of _ _ _ _ _ "''verbose''"] no by simp
  let ?env = "\<lparr>malloc_th_ok = True, getenv_TEAM_LOG = Some ''7'',
      nl_sock_ok = True, nl_sock_event_ok = True, nl_cli_sock_ok = True,
      nl_cli_connect_res = 0, link_cache_ok = True\<rparr>"
  have al: "team_alloc ?env = Some (the (team_alloc ?env))"
    by (simp add: team_alloc_def Let_def)
  have 6: "th_log_priority (the (team_alloc ?env)) = log_priority ''7''"
    using log_priority_cases [of _ _ _ _ _ _ ?env "the (team_alloc ?env)"] al by simp
  have big: "integer_text [] [] ''4294967303'' []"
    by (simp add: integer_text_def isdigit_def)
  have bv: "(4294967303 :: int) =
      (if [] = ''-'' then - dec_value ''4294967303'' else dec_value ''4294967303'')"
    by (simp add: dec_value_def digit_val_def)
  have "log_priority ([] @ [] @ ''4294967303'' @ []) = word_of_int (clamp_long 4294967303)"
    using log_priority_cases [of "[]" "[]" "''4294967303''" "[]" 4294967303] big bv by blast
  then have 7: "log_priority ''4294967303'' = 7"
    by (simp add: clamp_long_def LONG_MAX_def LONG_MIN_def)
  from 1 2 3 4 5 6 7 show ?thesis by simp
qed

text \<open>
  The claim as worded says that a text other than an integer or exactly one of the three
  tokens yields the lowest priority. The tokens are compared with \<open>strncmp\<close> over their own
  length, so \<open>error\<close>, for which \<open>strtol\<close> converts nothing, gives \<open>LOG_ERR\<close>.
\<close>

theorem log_priority_prefix_counterexample:
  "log_priority ''error'' = LOG_ERR \<and> LOG_ERR \<noteq> 0 \<and> strtol ''error'' = (0, ''error'') \<and>
   ''error'' \<notin> {''err'', ''info'', ''debug''}"
  by (simp add: log_priority_def strtol_def scan_sign_def isspace_def isdigit_def
        strncmp_eq_def LOG_ERR_def)

section \<open>Dispatch of change handlers\<close>

lemma call_change_handlers_eq:
  "call_change_handlers hmem m hs th = th\<lparr>trace := trace th @
     map (\<lambda>h. CallFunc h (func (hmem h)) (func_priv (hmem h)) (type_mask (hmem h) AND m))
       (filter (\<lambda>h. type_mask (hmem h) AND m \<noteq> 0) hs)\<rparr>"
  by (induction hs arbitrary: th) (simp_all add: Let_def)

lemma check_call_change_handlers_eq:
  "check_call_change_handlers hmem th M =
     th\<lparr>trace := trace th @
        map (\<lambda>h. CallFunc h (func (hmem h)) (func_priv (hmem h))
                   (type_mask (hmem h) AND (pending_type_mask th AND M)))
          (filter (\<lambda>h. type_mask (hmem h) AND (pending_type_mask th AND M) \<noteq> 0)
             (change_handler_list th)),
        pending_type_mask := pending_type_mask th AND NOT M\<rparr>"
  by (simp add: check_call_change_handlers_def Let_def call_change_handlers_eq)

lemma calls_from_count:
  "distinct hs \<Longrightarrow>
   length (filter (called_from h)
     (map (\<lambda>h. CallFunc h (func (hmem h)) (func_priv (hmem h)) (type_mask (hmem h) AND m))
       (filter (\<lambda>h. type_mask (hmem h) AND m \<noteq> 0) hs)))
   = (if h \<in> set hs \<and> type_mask (hmem h) AND m \<noteq> 0 then 1 else 0)"
  by (induction hs) (auto simp: called_from_def)

lemma mask_clear_bits: "bit (p AND NOT m) n \<longleftrightarrow> bit p n \<and> \<not> bit m n"
  for p m :: "32 word"
  by (auto simp: bit_and_iff bit_not_iff dest: bit_imp_le_length)

text \<open>
  C4. A dispatch with settle mask \<open>M\<close> on a context with pending mask \<open>P\<close> calls, in the
  order of the handler list, the function of every registered handler whose interest mask
  meets \<open>P AND M\<close>, with its private pointer and exactly that intersection, and calls no
  other; with distinct registrations each such handler is called once and the others not at
  all. Afterwards the pending mask is \<open>P AND NOT M\<close>: bit by bit, what was pending and is
  not in \<open>M\<close>. Nothing else of the context changes. In particular, with a port handler
  and an option handler registered in this order and both categories pending, the dispatch of
  \<open>TEAM_ANY_CHANGE\<close> calls the first with the port bit alone and then the second with the
  option bit alone.
\<close>

theorem check_call_change_handlers_dispatch:
  "check_call_change_handlers hmem th M =
     th\<lparr>trace := trace th @
        map (\<lambda>h. CallFunc h (func (hmem h)) (func_priv (hmem h))
                   (type_mask (hmem h) AND (pending_type_mask th AND M)))
          (filter (\<lambda>h. type_mask (hmem h) AND (pending_type_mask th AND M) \<noteq> 0)
             (change_handler_list th)),
        pending_type_mask := pending_type_mask th AND NOT M\<rparr> \<and>
   (distinct (change_handler_list th) \<longrightarrow>
    length (filter (called_from h)
       (drop (length (trace th)) (trace (check_call_change_handlers hmem th M)))) =
      (if h \<in> set (change_handler_list th) \<and>
          type_mask (hmem h) AND (pending_type_mask th AND M) \<noteq> 0 then 1 else 0)) \<and>
   (bit (pending_type_mask (check_call_change_handlers hmem th M)) n \<longleftrightarrow>
      bit (pending_type_mask th) n \<and> \<not> bit M n) \<and>
   (change_handler_list th = [hp, ho] \<and> type_mask (hmem hp) = TEAM_PORT_CHANGE \<and>
    type_mask (hmem ho) = TEAM_OPTION_CHANGE \<and>
    pending_type_mask th = TEAM_PORT_CHANGE OR TEAM_OPTION_CHANGE \<longrightarrow>
    check_call_change_handlers hmem th TEAM_ANY_CHANGE =
      th\<lparr>trace := trace th @
           [CallFunc hp (func (hmem hp)) (func_priv (hmem hp)) TEAM_PORT_CHANGE,
            CallFunc ho (func (hmem ho)) (func_priv (hmem ho)) TEAM_OPTION_CHANGE],
         pending_type_mask := 0\<rparr>)"
proof (intro conjI impI)
  show "check_call_change_handlers hmem th M =
     th\<lparr>trace := trace th @
        map (\<lambda>h. CallFunc h (func (hmem h)) (func_priv (hmem h))
                   (type_mask (hmem h) AND (pending_type_mask th AND M)))
          (filter (\<lambda>h. type_mask (hmem h) AND (pending_type_mask th AND M) \<noteq> 0)
             (change_handler_list th)),
        pending_type_mask := pending_type_mask th AND NOT M\<rparr>"
    by (rule check_call_change_handlers_eq)
next
  assume d: "distinct (change_handler_list th)"
  have "drop (length (trace th)) (trace (check_call_change_handlers hmem th M)) =
      map (\<lambda>h. CallFunc h (func (hmem h)) (func_priv (hmem h))
                   (type_mask (hmem h) AND (pending_type_mask th AND M)))
          (filter (\<lambda>h. type_mask (hmem h) AND (pending_type_mask th AND M) \<noteq> 0)
             (change_handler_list th))"
    by (simp add: check_call_change_handlers_eq)
  then show "length (filter (called_from h)
       (drop (length (trace th)) (trace (check_call_change_handlers hmem th M)))) =
      (if h \<in> set (change_handler_list th) \<and>
          type_mask (hmem h) AND (pending_type_mask th AND M) \<noteq> 0 then 1 else 0)"
    by (simp only: calls_from_count [OF d])
next
  show "bit (pending_type_mask (check_call_change_handlers hmem th M)) n \<longleftrightarrow>
      bit (pending_type_mask th) n \<and> \<not> bit M n"
    by (simp add: check_call_change_handlers_eq mask_clear_bits)
next
  assume "change_handler_list th = [hp, ho] \<and> type_mask (hmem hp) = TEAM_PORT_CHANGE \<and>
    type_mask (hmem ho) = TEAM_OPTION_CHANGE \<and>
    pending_type_mask th = TEAM_PORT_CHANGE OR TEAM_OPTION_CHANGE"
  then show "check_call_change_handlers hmem th TEAM_ANY_CHANGE =
      th\<lparr>trace := trace th @
           [CallFunc hp (func (hmem hp)) (func_priv (hmem hp)) TEAM_PORT_CHANGE,
            CallFunc ho (func (hmem ho)) (func_priv (hmem ho)) TEAM_OPTION_CHANGE],
         pending_type_mask := 0\<rparr>"
    by (simp add: check_call_change_handlers_eq TEAM_ANY_CHANGE_def TEAM_PORT_CHANGE_def
          TEAM_OPTION_CHANGE_def)
qed

theorem check_call_change_handlers_dispatch_witness:
  "check_call_change_handlers port_and_option_handlers
     (set_call_change_handlers
        (set_call_change_handlers (zeroed_handle\<lparr>change_handler_list := [1, 2]\<rparr>)
           TEAM_PORT_CHANGE) TEAM_OPTION_CHANGE) TEAM_ANY_CHANGE =
   zeroed_handle\<lparr>change_handler_list := [1, 2],
     trace := [CallFunc 1 10 100 TEAM_PORT_CHANGE, CallFunc 2 20 200 TEAM_OPTION_CHANGE]\<rparr> \<and>
   length (filter (called_from 2)
     (trace (check_call_change_handlers port_and_option_handlers
        (zeroed_handle\<lparr>change_handler_list := [1, 2], pending_type_mask := 3\<rparr>)
        TEAM_OPTION_CHANGE))) = 1 \<and>
   length (filter (called_from 1)
     (trace (check_call_change_handlers port_and_option_handlers
        (zeroed_handle\<lparr>change_handler_list := [1, 2], pending_type_mask := 3\<rparr>)
        TEAM_OPTION_CHANGE))) = 0"
proof -
  let ?th = "zeroed_handle\<lparr>change_handler_list := [1, 2], pending_type_mask := 3\<rparr>"
  have th: "set_call_change_handlers
        (set_call_change_handlers (zeroed_handle\<lparr>change_handler_list := [1, 2]\<rparr>)
           TEAM_PORT_CHANGE) TEAM_OPTION_CHANGE = ?th"
    by (simp add: set_call_change_handlers_def zeroed_handle_def TEAM_PORT_CHANGE_def
          TEAM_OPTION_CHANGE_def)
  have hyp: "change_handler_list ?th = [1, 2] \<and>
    type_mask (port_and_option_handlers 1) = TEAM_PORT_CHANGE \<and>
    type_mask (port_and_option_handlers 2) = TEAM_OPTION_CHANGE \<and>
    pending_type_mask ?th = TEAM_PORT_CHANGE OR TEAM_OPTION_CHANGE"
    by (simp add: port_and_option_handlers_def TEAM_PORT_CHANGE_def TEAM_OPTION_CHANGE_def)
  have d: "distinct (change_handler_list ?th)" by simp
  have tr: "trace zeroed_handle = []" by (simp add: zeroed_handle_def)
  have 1: "check_call_change_handlers port_and_option_handlers ?th TEAM_ANY_CHANGE =
     ?th\<lparr>trace := trace ?th @
           [CallFunc 1 (func (port_and_option_handlers 1)) (func_priv (port_and_option_handlers 1))
              TEAM_PORT_CHANGE,
            CallFunc 2 (func (port_and_option_handlers 2)) (func_priv (port_and_option_handlers 2))
              TEAM_OPTION_CHANGE],
         pending_type_mask := 0\<rparr>"
    using check_call_change_handlers_dispatch
      [of port_and_option_handlers ?th _ _ _ 1 2] hyp by blast
  have 2: "length (filter (called_from 2)
       (drop (length (trace ?th))
          (trace (check_call_change_handlers port_and_option_handlers ?th TEAM_OPTION_CHANGE)))) =
      (if 2 \<in> set (change_handler_list ?th) \<and>
          type_mask (port_and_option_handlers 2) AND
            (pending_type_mask ?th AND TEAM_OPTION_CHANGE) \<noteq> 0 then 1 else 0)"
    using check_call_change_handlers_dispatch
      [of port_and_option_handlers ?th TEAM_OPTION_CHANGE 2] d by blast
  have 3: "length (filter (called_from 1)
       (drop (length (trace ?th))
          (trace (check_call_change_handlers port_and_option_handlers ?th TEAM_OPTION_CHANGE)))) =
      (if 1 \<in> set (change_handler_list ?th) \<and>
          type_mask (port_and_option_handlers 1) AND
            (pending_type_mask ?th AND TEAM_OPTION_CHANGE) \<noteq> 0 then 1 else 0)"
    using check_call_change_handlers_dispatch
      [of port_and_option_handlers ?th TEAM_OPTION_CHANGE 1] d by blast
  from 1 have r1: "check_call_change_handlers port_and_option_handlers ?th TEAM_ANY_CHANGE =
     zeroed_handle\<lparr>change_handler_list := [1, 2],
       trace := [CallFunc 1 10 100 TEAM_PORT_CHANGE, CallFunc 2 20 200 TEAM_OPTION_CHANGE]\<rparr>"
    by (simp add: port_and_option_handlers_def zeroed_handle_def)
  from 2 have r2: "length (filter (called_from 2)
       (trace (check_call_change_handlers port_and_option_handlers ?th TEAM_OPTION_CHANGE))) = 1"
    by (simp add: tr port_and_option_handlers_def TEAM_OPTION_CHANGE_def)
  from 3 have r3: "length (filter (called_from 1)
       (trace (check_call_change_handlers port_and_option_handlers ?th TEAM_OPTION_CHANGE))) = 0"
    by (simp add: tr port_and_option_handlers_def TEAM_OPTION_CHANGE_def TEAM_PORT_CHANGE_def)
  from r1 r2 r3 th show ?thesis by simp
qed

section \<open>Registering and unregistering change handlers\<close>

lemma find_eq_iff_mem: "find (\<lambda>x. x = h) xs = (if h \<in> set xs then Some h else None)"
  by (induction xs) auto

lemma find_change_handler_iff:
  "find_change_handler th h = (if h \<in> set (change_handler_list th) then Some h else None)"
  by (simp add: find_change_handler_def find_eq_iff_mem)

lemma remove1_split_first:
  "h \<in> set xs \<Longrightarrow> \<exists>before after. xs = before @ h # after \<and> h \<notin> set before \<and>
     remove1 h xs = before @ after"
proof (induction xs)
  case Nil
  then show ?case by simp
next
  case (Cons x xs)
  show ?case
  proof (cases "x = h")
    case True
    then have "x # xs = [] @ h # xs \<and> h \<notin> set [] \<and> remove1 h (x # xs) = [] @ xs" by simp
    then show ?thesis by blast
  next
    case False
    with Cons obtain before after where
      "xs = before @ h # after" "h \<notin> set before" "remove1 h xs = before @ after" by auto
    with False have "x # xs = (x # before) @ h # after \<and> h \<notin> set (x # before) \<and>
      remove1 h (x # xs) = (x # before) @ after" by auto
    then show ?thesis by blast
  qed
qed

text \<open>
  C6, with the identity the code compares: the address of the handler structure. Registering
  a structure whose address is already in the collection fails with \<open>-EEXIST\<close> and changes
  nothing; unregistering one that is not there changes nothing; a registration of a new
  address whose node is allocated returns 0 and puts exactly that one record behind the
  others (it returns \<open>-ENOMEM\<close> and changes nothing when the node cannot be allocated); an
  unregistration of a registered address removes exactly its record and keeps the others
  in their order. Registrations stay distinct, so after the removal the address is gone.
\<close>

theorem change_handler_register_unregister:
  "(handler \<in> set (change_handler_list th) \<longrightarrow>
      team_change_handler_register th handler malloc_ok = (- EEXIST, th)) \<and>
   (handler \<notin> set (change_handler_list th) \<longrightarrow>
      team_change_handler_unregister th handler = th \<and>
      team_change_handler_register th handler True =
        (0, th\<lparr>change_handler_list := change_handler_list th @ [handler]\<rparr>) \<and>
      team_change_handler_register th handler False = (- ENOMEM, th)) \<and>
   (handler \<in> set (change_handler_list th) \<longrightarrow>
      (\<exists>before after. change_handler_list th = before @ handler # after \<and>
         handler \<notin> set before \<and>
         team_change_handler_unregister th handler =
           th\<lparr>change_handler_list := before @ after\<rparr>)) \<and>
   (distinct (change_handler_list th) \<longrightarrow>
      distinct (change_handler_list (snd (team_change_handler_register th handler malloc_ok))) \<and>
      distinct (change_handler_list (team_change_handler_unregister th handler)) \<and>
      handler \<notin> set (change_handler_list (team_change_handler_unregister th handler)))"
proof (intro conjI impI)
  assume "handler \<in> set (change_handler_list th)"
  then show "team_change_handler_register th handler malloc_ok = (- EEXIST, th)"
    by (simp add: team_change_handler_register_def find_change_handler_iff)
next
  assume "handler \<notin> set (change_handler_list th)"
  then show "team_change_handler_unregister th handler = th"
    by (simp add: team_change_handler_unregister_def find_change_handler_iff)
next
  assume "handler \<notin> set (change_handler_list th)"
  then show "team_change_handler_register th handler True =
        (0, th\<lparr>change_handler_list := change_handler_list th @ [handler]\<rparr>)"
    by (simp add: team_change_handler_register_def find_change_handler_iff list_add_def)
next
  assume "handler \<notin> set (change_handler_list th)"
  then show "team_change_handler_register th handler False = (- ENOMEM, th)"
    by (simp add: team_change_handler_register_def find_change_handler_iff)
next
  assume "handler \<in> set (change_handler_list th)"
  from remove1_split_first [OF this] obtain before after where
    "change_handler_list th = before @ handler # after" "handler \<notin> set before"
    "remove1 handler (change_handler_list th) = before @ after" by blast
  moreover from \<open>handler \<in> set (change_handler_list th)\<close>
  have "team_change_handler_unregister th handler =
          th\<lparr>change_handler_list := remove1 handler (change_handler_list th)\<rparr>"
    by (simp add: team_change_handler_unregister_def find_change_handler_iff list_del_def)
  ultimately show "\<exists>before after. change_handler_list th = before @ handler # after \<and>
         handler \<notin> set before \<and>
         team_change_handler_unregister th handler =
           th\<lparr>change_handler_list := before @ after\<rparr>"
    by metis
next
  assume "distinct (change_handler_list th)"
  then show
    "distinct (change_handler_list (snd (team_change_handler_register th handler malloc_ok)))"
    by (simp add: team_change_handler_register_def find_change_handler_iff list_add_def)
next
  assume "distinct (change_handler_list th)"
  then show "distinct (change_handler_list (team_change_handler_unregister th handler))"
    by (simp add: team_change_handler_unregister_def find_change_handler_iff list_del_def)
next
  assume "distinct (change_handler_list th)"
  then show "handler \<notin> set (change_handler_list (team_change_handler_unregister th handler))"
    by (simp add: team_change_handler_unregister_def find_change_handler_iff list_del_def)
qed

theorem change_handler_register_unregister_witness:
  "team_change_handler_register (zeroed_handle\<lparr>change_handler_list := [1, 2]\<rparr>) 2 True =
     (- EEXIST, zeroed_handle\<lparr>change_handler_list := [1, 2]\<rparr>) \<and>
   team_change_handler_unregister (zeroed_handle\<lparr>change_handler_list := [1, 2]\<rparr>) 3 =
     zeroed_handle\<lparr>change_handler_list := [1, 2]\<rparr> \<and>
   team_change_handler_register (zeroed_handle\<lparr>change_handler_list := [1, 2]\<rparr>) 3 True =
     (0, zeroed_handle\<lparr>change_handler_list := [1, 2, 3]\<rparr>) \<and>
   2 \<notin> set (change_handler_list
     (team_change_handler_unregister (zeroed_handle\<lparr>change_handler_list := [1, 2]\<rparr>) 2))"
proof -
  let ?th = "zeroed_handle\<lparr>change_handler_list := [1, 2]\<rparr>"
  have l: "change_handler_list ?th = [1, 2]" by simp
  have 1: "team_change_handler_register ?th 2 True = (- EEXIST, ?th)"
    using change_handler_register_unregister [of 2 ?th True] by (simp add: l)
  have 2: "team_change_handler_unregister ?th 3 = ?th"
    using change_handler_register_unregister [of 3 ?th True] by (simp add: l)
  have 3: "team_change_handler_register ?th 3 True = (0, ?th\<lparr>change_handler_list := [1, 2, 3]\<rparr>)"
    using change_handler_register_unregister [of 3 ?th True] by (simp add: l)
  have 4: "2 \<notin> set (change_handler_list (team_change_handler_unregister ?th 2))"
    using change_handler_register_unregister [of 2 ?th True] by (simp add: l)
  from 1 2 3 4 show ?thesis by simp
qed

text \<open>
  The claim as worded takes the callback for the identity. The code never reads the
  callback when it registers: a second handler structure naming the callback of one already
  registered is accepted, and the collection then holds that callback twice.
\<close>

theorem change_handler_same_callback_counterexample:
  "func (same_func_handlers 2) \<in> func ` same_func_handlers ` set [1] \<and>
   team_change_handler_register (zeroed_handle\<lparr>change_handler_list := [1]\<rparr>) 2 True =
     (0, zeroed_handle\<lparr>change_handler_list := [1, 2]\<rparr>) \<and>
   map (\<lambda>h. func (same_func_handlers h)) [1, 2] = [10, 10]"
  by (simp add: team_change_handler_register_def find_change_handler_def list_add_def
        same_func_handlers_def)

section \<open>Decoding of port and option lists\<close>

lemma port_list_loop_ok:
  "\<forall>item \<in> set items. port_item_ok item \<Longrightarrow>
   port_list_loop items tmp = Some (tmp @ map port_of_item items)"
proof (induction items arbitrary: tmp)
  case Nil
  then show ?case by simp
next
  case (Cons item items)
  obtain n ok where item: "item = (n, ok)" by (cases item)
  from Cons.prems have ok: "port_item_ok item" and rest: "\<forall>item \<in> set items. port_item_ok item"
    by simp_all
  from ok item obtain pa a where n: "n = Parsed pa" "pa TEAM_ATTR_PORT_IFINDEX = Some a" "ok"
    by (auto simp: port_item_ok_def split: nested.splits)
  show ?case
    using Cons.IH [OF rest] by (simp add: item n list_add_def port_of_item_def)
qed

lemma port_list_loop_abort:
  "\<exists>item \<in> set items. \<not> port_item_ok item \<Longrightarrow> port_list_loop items tmp = None"
proof (induction items arbitrary: tmp)
  case Nil
  then show ?case by simp
next
  case (Cons item items)
  obtain n ok where item: "item = (n, ok)" by (cases item)
  show ?case
  proof (cases "port_item_ok item")
    case False
    then show ?thesis
      by (auto simp: item port_item_ok_def split: nested.splits option.splits)
  next
    case True
    with Cons.prems have "\<exists>item \<in> set items. \<not> port_item_ok item" by auto
    from Cons.IH [OF this] show ?thesis
      by (simp add: item split: nested.splits option.splits)
  qed
qed

lemma option_list_loop_incomplete:
  "\<exists>item \<in> set items. \<not> option_item_complete item \<Longrightarrow>
   option_list_loop items tmp = EarlyReturn \<or> option_list_loop items tmp = NullDeref"
proof (induction items arbitrary: tmp)
  case Nil
  then show ?case by simp
next
  case (Cons item items)
  obtain n ok where item: "item = (n, ok)" by (cases item)
  show ?case
  proof (cases "option_item_complete item")
    case False
    then show ?thesis
      by (auto simp: item option_item_complete_def split: nested.splits option.splits)
  next
    case True
    with Cons.prems have "\<exists>item \<in> set items. \<not> option_item_complete item" by auto
    from Cons.IH [OF this] show ?thesis
      by (auto simp: item Let_def create_option_def split: nested.splits option.splits)
  qed
qed

lemma option_list_loop_no_deref:
  "\<forall>item \<in> set items. snd item \<Longrightarrow> option_list_loop items tmp \<noteq> NullDeref"
proof (induction items arbitrary: tmp)
  case Nil
  then show ?case by simp
next
  case (Cons item items)
  obtain n ok where item: "item = (n, ok)" by (cases item)
  from Cons.prems have ok and rest: "\<forall>item \<in> set items. snd item" by (simp_all add: item)
  from Cons.IH [OF rest] \<open>ok\<close> show ?case
    by (auto simp: item Let_def create_option_def split: nested.splits option.splits)
qed


lemma find_snoc:
  "find P (xs @ [y]) =
     (case find P xs of Some x \<Rightarrow> Some x | None \<Rightarrow> if P y then Some y else None)"
  by (induction xs) simp_all

lemma find_option_snoc:
  "find_option (tmp @ [opt]) name =
     (case find_option tmp name of
        Some x \<Rightarrow> Some x
      | None \<Rightarrow> if option_name opt = name then Some opt else None)"
  by (simp add: find_option_def find_snoc)

lemma find_option_None_iff: "find_option tmp name = None \<longleftrightarrow> name \<notin> option_name ` set tmp"
  by (auto simp: find_option_def find_None_iff)

lemma option_of_item_complete:
  "option_of_item item = Some opt \<Longrightarrow> option_item_complete item"
  by (auto simp: option_of_item_def option_item_complete_def
           split: nested.splits option.splits if_splits)

lemma option_list_loop_step:
  assumes "option_item_complete item"
  shows "option_list_loop (item # rest) tmp =
     (case option_of_item item of
        None \<Rightarrow> option_list_loop rest tmp
      | Some opt \<Rightarrow>
          if find_option tmp (option_name opt) \<noteq> None then option_list_loop rest tmp
          else if snd item then option_list_loop rest (tmp @ [opt])
          else NullDeref)"
proof -
  obtain n ok where item: "item = (n, ok)" by (cases item)
  from assms item obtain oa na ta da where n: "n = Parsed oa"
    "oa TEAM_ATTR_OPTION_NAME = Some na" "oa TEAM_ATTR_OPTION_TYPE = Some ta"
    "oa TEAM_ATTR_OPTION_DATA = Some da"
    by (auto simp: option_item_complete_def split: nested.splits)
  show ?thesis
    by (simp add: item n option_of_item_def Let_def create_option_def list_add_def)
qed

lemma option_list_loop_distinct:
  "option_list_loop items tmp = Built l \<Longrightarrow> distinct (map option_name tmp) \<Longrightarrow>
   distinct (map option_name l)"
proof (induction items arbitrary: tmp)
  case Nil
  then show ?case by simp
next
  case (Cons item items)
  from option_list_loop_incomplete [of "item # items" tmp] Cons.prems(1)
  have "option_item_complete item" by auto
  note step = option_list_loop_step [OF this, of items tmp]
  show ?case
  proof (cases "option_of_item item")
    case None
    with step Cons.prems Cons.IH [of tmp] show ?thesis by simp
  next
    case (Some opt)
    show ?thesis
    proof (cases "find_option tmp (option_name opt) = None")
      case False
      with Some step Cons.prems Cons.IH [of tmp] show ?thesis by simp
    next
      case True
      with Some step Cons.prems(1)
      have r: "option_list_loop items (tmp @ [opt]) = Built l"
        by (simp split: if_splits)
      from True Cons.prems(2) have "distinct (map option_name (tmp @ [opt]))"
        by (simp add: find_option_None_iff)
      from Cons.IH [OF r this] show ?thesis .
    qed
  qed
qed

lemma option_list_loop_built:
  assumes "\<forall>item \<in> set items. option_item_complete item \<and> snd item"
    and "distinct (map option_name tmp)"
  shows "\<exists>l. option_list_loop items tmp = Built l \<and> distinct (map option_name l) \<and>
     (\<forall>name. find_option l name =
        (case find_option tmp name of
           Some x \<Rightarrow> Some x
         | None \<Rightarrow> (case find (usable_as name) items of
                      None \<Rightarrow> None | Some it \<Rightarrow> option_of_item it)))"
  using assms
proof (induction items arbitrary: tmp)
  case Nil
  then show ?case by (simp split: option.splits)
next
  case (Cons item items)
  from Cons.prems have item: "option_item_complete item" "snd item"
    and rest: "\<forall>item \<in> set items. option_item_complete item \<and> snd item" by simp_all
  note step = option_list_loop_step [OF item(1), of items tmp]
  show ?case
  proof (cases "option_of_item item")
    case None
    then have nu: "\<And>name. \<not> usable_as name item" by (simp add: usable_as_def)
    from Cons.IH [OF rest Cons.prems(2)] obtain l where
      l: "option_list_loop items tmp = Built l" "distinct (map option_name l)"
      "\<forall>name. find_option l name =
        (case find_option tmp name of
           Some x \<Rightarrow> Some x
         | None \<Rightarrow> (case find (usable_as name) items of
                      None \<Rightarrow> None | Some it \<Rightarrow> option_of_item it))" by blast
    moreover have "\<And>name. find (usable_as name) (item # items) = find (usable_as name) items"
      using nu by simp
    ultimately show ?thesis using None step by (simp cong: option.case_cong)
  next
    case (Some opt)
    then have us: "\<And>name. usable_as name item \<longleftrightarrow> option_name opt = name"
      by (simp add: usable_as_def)
    show ?thesis
    proof (cases "find_option tmp (option_name opt) = None")
      case False
      from Cons.IH [OF rest Cons.prems(2)] obtain l where
        l: "option_list_loop items tmp = Built l" "distinct (map option_name l)"
        "\<forall>name. find_option l name =
          (case find_option tmp name of
             Some x \<Rightarrow> Some x
           | None \<Rightarrow> (case find (usable_as name) items of
                        None \<Rightarrow> None | Some it \<Rightarrow> option_of_item it))" by blast
      have "\<forall>name. find_option l name =
          (case find_option tmp name of
             Some x \<Rightarrow> Some x
           | None \<Rightarrow> (case find (usable_as name) (item # items) of
                        None \<Rightarrow> None | Some it \<Rightarrow> option_of_item it))"
      proof
        fix name
        show "find_option l name =
          (case find_option tmp name of
             Some x \<Rightarrow> Some x
           | None \<Rightarrow> (case find (usable_as name) (item # items) of
                        None \<Rightarrow> None | Some it \<Rightarrow> option_of_item it))"
        proof (cases "option_name opt = name")
          case True
          with False l(3) show ?thesis by (auto split: option.splits)
        next
          case False
          with us have "find (usable_as name) (item # items) = find (usable_as name) items"
            by simp
          with l(3) show ?thesis by (simp cong: option.case_cong)
        qed
      qed
      with l(1,2) False Some step show ?thesis by simp
    next
      case True
      then have fresh: "option_name opt \<notin> option_name ` set tmp"
        by (simp add: find_option_None_iff)
      with Cons.prems(2) have d: "distinct (map option_name (tmp @ [opt]))" by simp
      from Cons.IH [OF rest d] obtain l where
        l: "option_list_loop items (tmp @ [opt]) = Built l" "distinct (map option_name l)"
        "\<forall>name. find_option l name =
          (case find_option (tmp @ [opt]) name of
             Some x \<Rightarrow> Some x
           | None \<Rightarrow> (case find (usable_as name) items of
                        None \<Rightarrow> None | Some it \<Rightarrow> option_of_item it))" by blast
      have "\<forall>name. find_option l name =
          (case find_option tmp name of
             Some x \<Rightarrow> Some x
           | None \<Rightarrow> (case find (usable_as name) (item # items) of
                        None \<Rightarrow> None | Some it \<Rightarrow> option_of_item it))"
      proof
        fix name
        show "find_option l name =
          (case find_option tmp name of
             Some x \<Rightarrow> Some x
           | None \<Rightarrow> (case find (usable_as name) (item # items) of
                        None \<Rightarrow> None | Some it \<Rightarrow> option_of_item it))"
          using l(3) us Some by (auto simp: find_option_snoc split: option.splits)
      qed
      with l(1,2) True Some step item(2) show ?thesis by simp
    qed
  qed
qed

lemma find_first:
  "\<forall>y \<in> set pre. \<not> P y \<Longrightarrow> P x \<Longrightarrow> find P (pre @ x # post) = Some x"
  by (induction pre) simp_all

lemma distinct_names_count:
  "distinct (map f xs) \<Longrightarrow>
   length (filter (\<lambda>x. f x = y) xs) = (if y \<in> f ` set xs then 1 else 0)"
  by (induction xs) auto

lemma usable_option_of_item:
  "usable_as name item \<Longrightarrow> \<exists>opt. option_of_item item = Some opt \<and> option_name opt = name"
  by (auto simp: usable_as_def split: option.splits)


lemma get_port_list_handler_ok:
  assumes "(case ATTR_TEAM_IFINDEX msg of Some a \<Rightarrow> nla_get_u32 a | None \<Rightarrow> 0) = ifindex th"
    and "ATTR_LIST_PORT msg = Some items"
    and "\<forall>item \<in> set items. port_item_ok item"
  shows "get_port_list_handler msg th =
     (NL_SKIP, th\<lparr>port_list := map port_of_item items,
                 pending_type_mask := pending_type_mask th OR TEAM_PORT_CHANGE\<rparr>)"
  using assms port_list_loop_ok [OF assms(3), of "[]"]
  by (simp add: get_port_list_handler_def Let_def flush_port_list_def list_move_nodes_def
        set_call_change_handlers_def)

lemma get_port_list_handler_abort:
  assumes "ATTR_LIST_PORT msg = Some items" and "\<exists>item \<in> set items. \<not> port_item_ok item"
  shows "get_port_list_handler msg th = (NL_SKIP, th)"
  using assms(1) port_list_loop_abort [OF assms(2), of "[]"]
  by (simp add: get_port_list_handler_def Let_def)

lemma get_options_handler_built:
  assumes "(case ATTR_TEAM_IFINDEX msg of Some a \<Rightarrow> nla_get_u32 a | None \<Rightarrow> 0) = ifindex th"
    and "ATTR_LIST_OPTION msg = Some items"
    and "option_list_loop items [] = Built l"
  shows "get_options_handler msg th =
     Returns (NL_SKIP, th\<lparr>option_list := l,
                 pending_type_mask := pending_type_mask th OR TEAM_OPTION_CHANGE\<rparr>)"
  using assms
  by (simp add: get_options_handler_def Let_def flush_option_list_def list_move_nodes_def
        set_call_change_handlers_def)

lemma get_options_handler_abort:
  assumes "ATTR_LIST_OPTION msg = Some items"
    and "\<exists>item \<in> set items. \<not> option_item_complete item"
  shows "get_options_handler msg th = Returns (NL_SKIP, th) \<or>
         get_options_handler msg th = Segfault"
  using assms(1) option_list_loop_incomplete [OF assms(2), of "[]"]
  by (auto simp: get_options_handler_def Let_def)

lemma get_options_handler_abort_alloc:
  assumes "ATTR_LIST_OPTION msg = Some items"
    and "\<exists>item \<in> set items. \<not> option_item_complete item"
    and "\<forall>item \<in> set items. snd item"
  shows "get_options_handler msg th = Returns (NL_SKIP, th)"
  using assms(1) option_list_loop_incomplete [OF assms(2), of "[]"]
    option_list_loop_no_deref [OF assms(3), of "[]"]
  by (auto simp: get_options_handler_def Let_def)

lemma get_port_list_handler_cases:
  "get_port_list_handler msg th = (NL_SKIP, th) \<or>
   (\<exists>l. port_snapshot_of msg l \<and>
      get_port_list_handler msg th =
        (NL_SKIP, th\<lparr>port_list := l,
                    pending_type_mask := pending_type_mask th OR TEAM_PORT_CHANGE\<rparr>))"
proof (cases "(case ATTR_TEAM_IFINDEX msg of Some a \<Rightarrow> nla_get_u32 a | None \<Rightarrow> 0) = ifindex th")
  case False
  then show ?thesis by (simp add: get_port_list_handler_def Let_def)
next
  case dev: True
  show ?thesis
  proof (cases "ATTR_LIST_PORT msg")
    case None
    then show ?thesis by (simp add: get_port_list_handler_def Let_def)
  next
    case (Some items)
    show ?thesis
    proof (cases "\<forall>item \<in> set items. port_item_ok item")
      case True
      with Some have "port_snapshot_of msg (map port_of_item items)"
        by (simp add: port_snapshot_of_def)
      with get_port_list_handler_ok [OF dev Some True] show ?thesis by blast
    next
      case False
      then have "\<exists>item \<in> set items. \<not> port_item_ok item" by blast
      from get_port_list_handler_abort [OF Some this] show ?thesis by simp
    qed
  qed
qed

lemma option_list_loop_Built_complete:
  "option_list_loop items tmp = Built l \<Longrightarrow> \<forall>item \<in> set items. option_item_complete item"
  using option_list_loop_incomplete [of items tmp] by auto

lemma get_options_handler_cases:
  "get_options_handler msg th = Segfault \<or>
   get_options_handler msg th = Returns (NL_SKIP, th) \<or>
   (\<exists>l. option_snapshot_of msg l \<and>
      get_options_handler msg th =
        Returns (NL_SKIP, th\<lparr>option_list := l,
                    pending_type_mask := pending_type_mask th OR TEAM_OPTION_CHANGE\<rparr>))"
proof (cases "(case ATTR_TEAM_IFINDEX msg of Some a \<Rightarrow> nla_get_u32 a | None \<Rightarrow> 0) = ifindex th")
  case False
  then show ?thesis by (simp add: get_options_handler_def Let_def)
next
  case dev: True
  show ?thesis
  proof (cases "ATTR_LIST_OPTION msg")
    case None
    then show ?thesis by (simp add: get_options_handler_def Let_def)
  next
    case (Some items)
    show ?thesis
    proof (cases "option_list_loop items []")
      case (Built l)
      with Some option_list_loop_Built_complete [OF Built]
      have "option_snapshot_of msg l" by (simp add: option_snapshot_of_def)
      with get_options_handler_built [OF dev Some Built] show ?thesis by blast
    next
      case EarlyReturn
      with Some show ?thesis by (simp add: get_options_handler_def Let_def)
    next
      case NullDeref
      with Some dev show ?thesis by (simp add: get_options_handler_def Let_def)
    qed
  qed
qed

text \<open>
  C1, as the code has it. An item without a mandatory attribute ends the decoding of the
  whole message: the handler returns \<open>NL_SKIP\<close> at once and the context is as before, so
  neither the items before it nor those after it reach the registry, and no change is marked
  pending. For ports this holds whatever else the batch holds; for options it holds when the
  allocations for the items before it succeed.
\<close>

theorem missing_attribute_drops_message:
  "(ATTR_LIST_PORT msg = Some items \<and> (Parsed pa, ok) \<in> set items \<and>
      pa TEAM_ATTR_PORT_IFINDEX = None \<longrightarrow>
    get_port_list_handler msg th = (NL_SKIP, th)) \<and>
   (ATTR_LIST_OPTION msg = Some oitems \<and> (Parsed oa, ok') \<in> set oitems \<and>
      (oa TEAM_ATTR_OPTION_NAME = None \<or> oa TEAM_ATTR_OPTION_TYPE = None \<or>
       oa TEAM_ATTR_OPTION_DATA = None) \<and>
      (\<forall>item \<in> set oitems. snd item) \<longrightarrow>
    get_options_handler msg th = Returns (NL_SKIP, th))"
proof (intro conjI impI)
  assume a: "ATTR_LIST_PORT msg = Some items \<and> (Parsed pa, ok) \<in> set items \<and>
      pa TEAM_ATTR_PORT_IFINDEX = None"
  then have "\<not> port_item_ok (Parsed pa, ok)" by (simp add: port_item_ok_def)
  with a have "\<exists>item \<in> set items. \<not> port_item_ok item" by blast
  with a show "get_port_list_handler msg th = (NL_SKIP, th)"
    by (simp add: get_port_list_handler_abort)
next
  assume a: "ATTR_LIST_OPTION msg = Some oitems \<and> (Parsed oa, ok') \<in> set oitems \<and>
      (oa TEAM_ATTR_OPTION_NAME = None \<or> oa TEAM_ATTR_OPTION_TYPE = None \<or>
       oa TEAM_ATTR_OPTION_DATA = None) \<and>
      (\<forall>item \<in> set oitems. snd item)"
  then have "\<not> option_item_complete (Parsed oa, ok')"
    by (auto simp: option_item_complete_def)
  with a have "\<exists>item \<in> set oitems. \<not> option_item_complete item" by blast
  with a show "get_options_handler msg th = Returns (NL_SKIP, th)"
    by (simp add: get_options_handler_abort_alloc)
qed

theorem missing_attribute_drops_message_witness:
  "get_port_list_handler
     (port_msg (Some 5) [port_item 7, (Parsed [TEAM_ATTR_PORT_SPEED \<mapsto> attr_u32 1000], True)])
     bound_handle = (NL_SKIP, bound_handle) \<and>
   get_options_handler
     (option_msg (Some 5)
        [option_item ''mode'' NLA_STRING (attr_string ''roundrobin''),
         (Parsed [TEAM_ATTR_OPTION_NAME \<mapsto> attr_string ''activeport''], True)])
     bound_handle = Returns (NL_SKIP, bound_handle)"
proof -
  let ?pa = "[TEAM_ATTR_PORT_SPEED \<mapsto> attr_u32 1000]"
  let ?pitems = "[port_item 7, (Parsed ?pa, True)]"
  let ?oa = "[TEAM_ATTR_OPTION_NAME \<mapsto> attr_string ''activeport'']"
  let ?oitems = "[option_item ''mode'' NLA_STRING (attr_string ''roundrobin''),
         (Parsed ?oa, True)]"
  have p: "ATTR_LIST_PORT (port_msg (Some 5) ?pitems) = Some ?pitems \<and>
     (Parsed ?pa, True) \<in> set ?pitems \<and> ?pa TEAM_ATTR_PORT_IFINDEX = None"
    by (simp add: port_msg_def)
  have o: "ATTR_LIST_OPTION (option_msg (Some 5) ?oitems) = Some ?oitems \<and>
     (Parsed ?oa, True) \<in> set ?oitems \<and>
     (?oa TEAM_ATTR_OPTION_NAME = None \<or> ?oa TEAM_ATTR_OPTION_TYPE = None \<or>
      ?oa TEAM_ATTR_OPTION_DATA = None) \<and> (\<forall>item \<in> set ?oitems. snd item)"
    by (simp add: option_msg_def option_item_def)
  from p missing_attribute_drops_message
         [of "port_msg (Some 5) ?pitems" ?pitems ?pa True bound_handle]
  have 1: "get_port_list_handler (port_msg (Some 5) ?pitems) bound_handle =
             (NL_SKIP, bound_handle)" by blast
  from o missing_attribute_drops_message
         [of "option_msg (Some 5) ?oitems" _ _ _ bound_handle ?oitems ?oa True]
  have 2: "get_options_handler (option_msg (Some 5) ?oitems) bound_handle =
             Returns (NL_SKIP, bound_handle)" by blast
  from 1 2 show ?thesis by simp
qed

text \<open>
  The claim as worded has the malformed item alone skipped and the rest of the batch
  decoded. A port batch of three items for the bound device, the second without ifindex,
  leaves the empty registry empty: ports 7 and 9 are dropped with it. Likewise an option
  batch whose second item has no data.
\<close>

theorem missing_attribute_aborts_batch_counterexample:
  "port_list bound_handle = [] \<and>
   get_port_list_handler
     (port_msg (Some 5) [port_item 7, port_item_no_ifindex, port_item 9]) bound_handle =
     (NL_SKIP, bound_handle) \<and>
   port_list (snd (get_port_list_handler (port_msg (Some 5) [port_item 7, port_item 9])
     bound_handle)) = [port_of_item (port_item 7), port_of_item (port_item 9)] \<and>
   get_options_handler
     (option_msg (Some 5)
        [option_item ''mode'' NLA_STRING (attr_string ''roundrobin''),
         option_item_no_data ''activeport'']) bound_handle =
     Returns (NL_SKIP, bound_handle)"
  by (simp add: get_port_list_handler_def get_options_handler_def port_msg_def option_msg_def
        port_item_def port_item_no_ifindex_def option_item_def option_item_no_data_def
        bound_handle_def zeroed_handle_def attr_u32_def attr_string_def Let_def list_add_def
        list_move_nodes_def flush_port_list_def set_call_change_handlers_def port_of_item_def
        find_option_def create_option_def NLA_STRING_def NLA_U32_def)

lemma get_options_handler_distinct:
  assumes "distinct (map option_name (option_list th))"
    and "get_options_handler msg th = Returns (act, th')"
  shows "distinct (map option_name (option_list th'))"
proof -
  from get_options_handler_cases [of msg th] assms(2)
  consider "th' = th"
    | l where "option_snapshot_of msg l" "option_list th' = l"
    by auto
  then show ?thesis
  proof cases
    case 1
    with assms(1) show ?thesis by simp
  next
    case 2
    then obtain items where "option_list_loop items [] = Built l"
      by (auto simp: option_snapshot_of_def split: option.splits)
    from option_list_loop_distinct [OF this] 2 show ?thesis by simp
  qed
qed

lemma get_options_handler_first_usable:
  assumes "(case ATTR_TEAM_IFINDEX msg of Some a \<Rightarrow> nla_get_u32 a | None \<Rightarrow> 0) = ifindex th"
    and "ATTR_LIST_OPTION msg = Some items"
    and "\<forall>item \<in> set items. option_item_complete item \<and> snd item"
  shows "\<exists>th'. get_options_handler msg th = Returns (NL_SKIP, th') \<and>
     distinct (map option_name (option_list th')) \<and>
     length (filter (\<lambda>opt. option_name opt = name) (option_list th')) =
       (if \<exists>item \<in> set items. usable_as name item then 1 else 0) \<and>
     (items = pre @ item # post \<and> usable_as name item \<and>
        (\<forall>earlier \<in> set pre. \<not> usable_as name earlier) \<longrightarrow>
      team_get_option_by_name th' name = option_of_item item)"
proof -
  from option_list_loop_built [OF assms(3), of "[]"] obtain l where
    l: "option_list_loop items [] = Built l" "distinct (map option_name l)"
    and f: "\<And>name. find_option l name =
       (case find (usable_as name) items of None \<Rightarrow> None | Some it \<Rightarrow> option_of_item it)"
    by (auto simp: find_option_def)
  let ?th = "th\<lparr>option_list := l,
                 pending_type_mask := pending_type_mask th OR TEAM_OPTION_CHANGE\<rparr>"
  have h: "get_options_handler msg th = Returns (NL_SKIP, ?th)"
    by (rule get_options_handler_built [OF assms(1,2) l(1)])
  have present: "name \<in> option_name ` set l \<longleftrightarrow> (\<exists>item \<in> set items. usable_as name item)"
  proof (cases "find (usable_as name) items")
    case None
    with f [of name] show ?thesis
      by (auto simp: find_option_None_iff find_None_iff)
  next
    case (Some it)
    then have it: "it \<in> set items" "usable_as name it"
      by (auto simp: find_Some_iff)
    with usable_option_of_item [OF it(2)] f [of name] Some
    have "find_option l name \<noteq> None" by auto
    with it show ?thesis by (auto simp: find_option_None_iff)
  qed
  have cnt: "length (filter (\<lambda>opt. option_name opt = name) l) =
       (if \<exists>item \<in> set items. usable_as name item then 1 else 0)"
    using distinct_names_count [OF l(2), of name] present by simp
  have first: "items = pre @ item # post \<and> usable_as name item \<and>
        (\<forall>earlier \<in> set pre. \<not> usable_as name earlier) \<longrightarrow>
      find_option l name = option_of_item item"
  proof
    assume a: "items = pre @ item # post \<and> usable_as name item \<and>
        (\<forall>earlier \<in> set pre. \<not> usable_as name earlier)"
    then have "find (usable_as name) items = Some item"
      using find_first [of pre "usable_as name" item post] by simp
    with f [of name] show "find_option l name = option_of_item item" by simp
  qed
  from h l(2) cnt first show ?thesis
    by (intro exI [of _ ?th]) (simp add: team_get_option_by_name_def)
qed

text \<open>
  C2, as the code has it. When a batch of options for the bound device decodes to the end
  (every item has name, type and data, and the allocations succeed), the registry is
  replaced by a list in which a name has one entry when some item of that name has a type
  the decoder knows and no entry otherwise, and the entry is the one built from the first
  such item alone. Later items of that name are dropped; so is an earlier item of that name
  whose type is unknown. And whatever message the handler is given, option names that were
  distinct in the registry before are distinct after: there is never more than one option
  of a name.
\<close>

theorem get_options_first_usable_kept:
  "((case ATTR_TEAM_IFINDEX msg of Some a \<Rightarrow> nla_get_u32 a | None \<Rightarrow> 0) = ifindex th \<and>
    ATTR_LIST_OPTION msg = Some items \<and>
    (\<forall>item \<in> set items. option_item_complete item \<and> snd item) \<longrightarrow>
    (\<exists>th'. get_options_handler msg th = Returns (NL_SKIP, th') \<and>
       distinct (map option_name (option_list th')) \<and>
       length (filter (\<lambda>opt. option_name opt = name) (option_list th')) =
         (if \<exists>item \<in> set items. usable_as name item then 1 else 0) \<and>
       (items = pre @ item # post \<and> usable_as name item \<and>
          (\<forall>earlier \<in> set pre. \<not> usable_as name earlier) \<longrightarrow>
        team_get_option_by_name th' name = option_of_item item))) \<and>
   (distinct (map option_name (option_list th)) \<and>
    get_options_handler msg th = Returns (act, th2) \<longrightarrow>
    distinct (map option_name (option_list th2)))"
  using get_options_handler_first_usable [of msg th items name pre item post]
    get_options_handler_distinct [of th msg act th2]
  by blast

theorem get_options_first_usable_kept_witness:
  "\<exists>th'. get_options_handler
       (option_msg (Some 5)
          [option_item ''mode'' 99 (attr_string ''loadbalance''),
           option_item ''mode'' NLA_STRING (attr_string ''roundrobin''),
           option_item ''mode'' NLA_STRING (attr_string ''activebackup'')])
       bound_handle = Returns (NL_SKIP, th') \<and>
     distinct (map option_name (option_list th')) \<and>
     length (filter (\<lambda>opt. option_name opt = ''mode'') (option_list th')) = 1 \<and>
     team_get_option_by_name th' ''mode'' =
       Some \<lparr>option_type = TEAM_OPTION_TYPE_STRING, option_name = ''mode'',
             option_data = DataString ''roundrobin'', option_changed = False\<rparr>"
proof -
  let ?i1 = "option_item ''mode'' 99 (attr_string ''loadbalance'')"
  let ?i2 = "option_item ''mode'' NLA_STRING (attr_string ''roundrobin'')"
  let ?i3 = "option_item ''mode'' NLA_STRING (attr_string ''activebackup'')"
  let ?msg = "option_msg (Some 5) [?i1, ?i2, ?i3]"
  have dev: "(case ATTR_TEAM_IFINDEX ?msg of Some a \<Rightarrow> nla_get_u32 a | None \<Rightarrow> 0) =
     ifindex bound_handle"
    by (simp add: option_msg_def attr_u32_def bound_handle_def)
  have items: "ATTR_LIST_OPTION ?msg = Some [?i1, ?i2, ?i3]" by (simp add: option_msg_def)
  have complete: "\<forall>item \<in> set [?i1, ?i2, ?i3]. option_item_complete item \<and> snd item"
    by (simp add: option_item_def option_item_complete_def)
  have o1: "option_of_item ?i1 = None"
    by (simp add: option_of_item_def option_item_def attr_u32_def NLA_U32_def NLA_STRING_def)
  have o2: "option_of_item ?i2 =
       Some \<lparr>option_type = TEAM_OPTION_TYPE_STRING, option_name = ''mode'',
             option_data = DataString ''roundrobin'', option_changed = False\<rparr>"
    by (simp add: option_of_item_def option_item_def attr_u32_def attr_string_def
          NLA_U32_def NLA_STRING_def)
  have u: "[?i1, ?i2, ?i3] = [?i1] @ ?i2 # [?i3] \<and> usable_as ''mode'' ?i2 \<and>
        (\<forall>earlier \<in> set [?i1]. \<not> usable_as ''mode'' earlier)"
    by (simp add: usable_as_def o1 o2)
  then have ex: "\<exists>item \<in> set [?i1, ?i2, ?i3]. usable_as ''mode'' item" by simp
  from dev items complete get_options_first_usable_kept
    [where msg = ?msg and th = bound_handle and items = "[?i1, ?i2, ?i3]" and name = "''mode''"
       and pre = "[?i1]" and item = ?i2 and post = "[?i3]"]
  obtain th' where
    "get_options_handler ?msg bound_handle = Returns (NL_SKIP, th')"
    "distinct (map option_name (option_list th'))"
    "length (filter (\<lambda>opt. option_name opt = ''mode'') (option_list th')) =
       (if \<exists>item \<in> set [?i1, ?i2, ?i3]. usable_as ''mode'' item then 1 else 0)"
    "[?i1, ?i2, ?i3] = [?i1] @ ?i2 # [?i3] \<and> usable_as ''mode'' ?i2 \<and>
        (\<forall>earlier \<in> set [?i1]. \<not> usable_as ''mode'' earlier) \<longrightarrow>
      team_get_option_by_name th' ''mode'' = option_of_item ?i2"
    by blast
  with u ex o2 show ?thesis by (intro exI [of _ th']) simp
qed

text \<open>
  The claim as worded keeps the first item encountered and has exactly one entry for a
  name that occurs twice. When the first item of a name has a type the decoder does not
  know, the entry comes from the second item; when both have, the name has no entry.
\<close>

theorem get_options_first_item_counterexample:
  "get_options_handler
     (option_msg (Some 5)
        [option_item ''mode'' 99 (attr_string ''first''),
         option_item ''mode'' NLA_STRING (attr_string ''second'')]) bound_handle =
     Returns (NL_SKIP, bound_handle
       \<lparr>option_list := [\<lparr>option_type = TEAM_OPTION_TYPE_STRING, option_name = ''mode'',
                          option_data = DataString ''second'', option_changed = False\<rparr>],
        pending_type_mask := TEAM_OPTION_CHANGE\<rparr>) \<and>
   get_options_handler
     (option_msg (Some 5)
        [option_item ''mode'' 99 (attr_string ''first''),
         option_item ''mode'' 99 (attr_string ''second'')]) bound_handle =
     Returns (NL_SKIP, bound_handle
       \<lparr>option_list := [], pending_type_mask := TEAM_OPTION_CHANGE\<rparr>)"
  by (simp add: get_options_handler_def option_msg_def option_item_def
        bound_handle_def zeroed_handle_def attr_u32_def attr_string_def Let_def list_add_def
        list_move_nodes_def flush_option_list_def set_call_change_handlers_def
        find_option_def create_option_def NLA_STRING_def NLA_U32_def TEAM_OPTION_CHANGE_def)

text \<open>
  C3. A port-list or option-list message whose device ifindex attribute differs from the
  index the context is bound to, or that has no such attribute while the context is bound
  (its index is not 0; \<open>team_init\<close> refuses 0), is ignored: the handler, also when
  reached through \<open>event_handler\<close>, returns the ordinary \<open>NL_SKIP\<close> and the context,
  registries and pending mask included, is exactly as before.
\<close>

theorem other_device_message_ignored:
  assumes "case ATTR_TEAM_IFINDEX msg of
             Some a \<Rightarrow> nla_get_u32 a \<noteq> ifindex th
           | None \<Rightarrow> ifindex th \<noteq> 0"
  shows "get_port_list_handler msg th = (NL_SKIP, th) \<and>
         get_options_handler msg th = Returns (NL_SKIP, th) \<and>
         event_handler msg th = Returns (NL_SKIP, th)"
proof -
  from assms have
    "(case ATTR_TEAM_IFINDEX msg of Some a \<Rightarrow> nla_get_u32 a | None \<Rightarrow> 0) \<noteq> ifindex th"
    by (auto split: option.splits)
  then have p: "get_port_list_handler msg th = (NL_SKIP, th)"
    and o: "get_options_handler msg th = Returns (NL_SKIP, th)"
    by (simp_all add: get_port_list_handler_def get_options_handler_def Let_def)
  then have "event_handler msg th = Returns (NL_SKIP, th)"
    by (simp add: event_handler_def split: team_cmd.splits)
  with p o show ?thesis by simp
qed

theorem other_device_message_ignored_witness:
  "get_port_list_handler (port_msg (Some 6) [port_item 7]) bound_handle =
     (NL_SKIP, bound_handle) \<and>
   get_options_handler (option_msg None [option_item ''mode'' NLA_STRING (attr_string ''x'')])
     bound_handle = Returns (NL_SKIP, bound_handle) \<and>
   event_handler (port_msg None [port_item 7]) bound_handle = Returns (NL_SKIP, bound_handle)"
proof -
  have 1: "case ATTR_TEAM_IFINDEX (port_msg (Some 6) [port_item 7]) of
             Some a \<Rightarrow> nla_get_u32 a \<noteq> ifindex bound_handle
           | None \<Rightarrow> ifindex bound_handle \<noteq> 0"
    by (simp add: port_msg_def attr_u32_def bound_handle_def)
  have 2: "case ATTR_TEAM_IFINDEX
                  (option_msg None [option_item ''mode'' NLA_STRING (attr_string ''x'')]) of
             Some a \<Rightarrow> nla_get_u32 a \<noteq> ifindex bound_handle
           | None \<Rightarrow> ifindex bound_handle \<noteq> 0"
    by (simp add: option_msg_def bound_handle_def)
  have 3: "case ATTR_TEAM_IFINDEX (port_msg None [port_item 7]) of
             Some a \<Rightarrow> nla_get_u32 a \<noteq> ifindex bound_handle
           | None \<Rightarrow> ifindex bound_handle \<noteq> 0"
    by (simp add: port_msg_def bound_handle_def)
  from other_device_message_ignored [OF 1] other_device_message_ignored [OF 2]
    other_device_message_ignored [OF 3]
  show ?thesis by simp
qed

section \<open>Atomic replacement of the registries\<close>



lemma return_syserr_cases:
  "return_syserr err th = Undefined \<or>
   (\<exists>e. nl2syserr err = Some e \<and> return_syserr err th = Returns (- e, th))"
  by (auto simp: return_syserr_def split: option.splits)

lemma deliver_ports:
  assumes "deliver (Some (\<lambda>msg th. Returns (get_port_list_handler msg th))) ev th = Returns th'"
  shows "ifindex th' = ifindex th \<and> option_list th' = option_list th \<and>
     (port_list th' = port_list th \<and> pending_type_mask th' = pending_type_mask th \<or>
      (\<exists>msg. ev = EvValid msg \<and> port_snapshot_of msg (port_list th')))"
proof (cases ev)
  case (EvValid msg)
  with assms have "th' = snd (get_port_list_handler msg th)"
    by (auto simp: deliver_def split: prod.splits)
  with get_port_list_handler_cases [of msg th] EvValid show ?thesis by auto
qed (use assms in \<open>auto simp: deliver_def\<close>)

lemma deliver_options:
  assumes "deliver (Some get_options_handler) ev th = Returns th'"
  shows "ifindex th' = ifindex th \<and> port_list th' = port_list th \<and>
     (option_list th' = option_list th \<and> pending_type_mask th' = pending_type_mask th \<or>
      (\<exists>msg. ev = EvValid msg \<and> option_snapshot_of msg (option_list th')))"
proof (cases ev)
  case (EvValid msg)
  with assms have "\<exists>a. get_options_handler msg th = Returns (a, th')"
    by (auto simp: deliver_def split: result.splits prod.splits)
  with get_options_handler_cases [of msg th] EvValid show ?thesis by auto
qed (use assms in \<open>auto simp: deliver_def\<close>)

lemma recv_loop_ports:
  "recv_loop (Some (\<lambda>msg th. Returns (get_port_list_handler msg th))) evs th = Returns th' \<Longrightarrow>
   ifindex th' = ifindex th \<and> option_list th' = option_list th \<and>
   (port_list th' = port_list th \<and> pending_type_mask th' = pending_type_mask th \<or>
    (\<exists>msg. EvValid msg \<in> set evs \<and> port_snapshot_of msg (port_list th')))"
proof (induction evs arbitrary: th)
  case Nil
  then show ?case by (simp split: if_splits)
next
  case (Cons ev evs)
  show ?case
  proof (cases "0 <s nl_sock_err th")
    case False
    with Cons.prems show ?thesis by simp
  next
    case True
    let ?th1 = "th\<lparr>trace := trace th @ [RecvMsgsDefault]\<rparr>"
    from True Cons.prems obtain th2 where
      d: "deliver (Some (\<lambda>msg th. Returns (get_port_list_handler msg th))) ev ?th1 = Returns th2"
      and r: "recv_loop (Some (\<lambda>msg th. Returns (get_port_list_handler msg th))) evs th2 =
                Returns th'"
      by (auto split: result.splits)
    from deliver_ports [OF d] Cons.IH [OF r] show ?thesis by auto
  qed
qed

lemma recv_loop_options:
  "recv_loop (Some get_options_handler) evs th = Returns th' \<Longrightarrow>
   ifindex th' = ifindex th \<and> port_list th' = port_list th \<and>
   (option_list th' = option_list th \<and> pending_type_mask th' = pending_type_mask th \<or>
    (\<exists>msg. EvValid msg \<in> set evs \<and> option_snapshot_of msg (option_list th')))"
proof (induction evs arbitrary: th)
  case Nil
  then show ?case by (simp split: if_splits)
next
  case (Cons ev evs)
  show ?case
  proof (cases "0 <s nl_sock_err th")
    case False
    with Cons.prems show ?thesis by simp
  next
    case True
    let ?th1 = "th\<lparr>trace := trace th @ [RecvMsgsDefault]\<rparr>"
    from True Cons.prems obtain th2 where
      d: "deliver (Some get_options_handler) ev ?th1 = Returns th2"
      and r: "recv_loop (Some get_options_handler) evs th2 = Returns th'"
      by (auto split: result.splits)
    from deliver_options [OF d] Cons.IH [OF r] show ?thesis by auto
  qed
qed

lemma check_call_change_handlers_lists:
  "ifindex (check_call_change_handlers hmem th M) = ifindex th \<and>
   port_list (check_call_change_handlers hmem th M) = port_list th \<and>
   option_list (check_call_change_handlers hmem th M) = option_list th"
  by (simp add: check_call_change_handlers_eq)

lemma get_port_list_snapshot:
  assumes "get_port_list hmem th env = Returns (e, th')"
  shows "ifindex th' = ifindex th \<and> option_list th' = option_list th \<and>
     (port_list th' = port_list th \<or>
      (\<exists>msg. EvValid msg \<in> set (events env) \<and> port_snapshot_of msg (port_list th')))"
proof (cases "\<not> nlmsg_alloc_ok env \<or> \<not> nla_put_ok env \<or> send_res env <s 0")
  case True
  with assms show ?thesis
    by (auto simp: get_port_list_def send_and_recv_def Let_def check_call_change_handlers_eq
          return_syserr_def split: if_splits option.splits)
next
  case False
  let ?th0 = "th\<lparr>trace := trace th @ [SendAutoComplete TEAM_CMD_PORT_LIST_GET], nl_sock_err := 1\<rparr>"
  from False assms obtain th1 where
    r: "recv_loop (Some (\<lambda>msg th. Returns (get_port_list_handler msg th))) (events env) ?th0 =
          Returns th1"
    and th': "th' = th1 \<or> th' = check_call_change_handlers hmem th1 TEAM_PORT_CHANGE"
    by (auto simp: get_port_list_def send_and_recv_def Let_def split: if_splits result.splits)
  from recv_loop_ports [OF r] th' check_call_change_handlers_lists [of hmem th1 TEAM_PORT_CHANGE]
  show ?thesis by auto
qed

lemma get_options_snapshot:
  assumes "get_options hmem th env = Returns (e, th')"
  shows "ifindex th' = ifindex th \<and> port_list th' = port_list th \<and>
     (option_list th' = option_list th \<or>
      (\<exists>msg. EvValid msg \<in> set (events env) \<and> option_snapshot_of msg (option_list th')))"
proof (cases "\<not> nlmsg_alloc_ok env \<or> \<not> nla_put_ok env \<or> send_res env <s 0")
  case True
  with assms show ?thesis
    by (auto simp: get_options_def send_and_recv_def Let_def check_call_change_handlers_eq
          return_syserr_def split: if_splits option.splits)
next
  case False
  let ?th0 = "th\<lparr>trace := trace th @ [SendAutoComplete TEAM_CMD_OPTIONS_GET], nl_sock_err := 1\<rparr>"
  from False assms obtain th1 where
    r: "recv_loop (Some get_options_handler) (events env) ?th0 = Returns th1"
    and th': "th' = th1 \<or> th' = check_call_change_handlers hmem th1 TEAM_OPTION_CHANGE"
    by (auto simp: get_options_def send_and_recv_def Let_def split: if_splits result.splits)
  from recv_loop_options [OF r] th' check_call_change_handlers_lists [of hmem th1 TEAM_OPTION_CHANGE]
  show ?thesis by auto
qed







section \<open>Fields of a decoded port\<close>

lemma fill_port_fields:
  "fill_port pa a =
     \<lparr>port_ifindex = nla_get_u32 a,
      port_speed = (case pa TEAM_ATTR_PORT_SPEED of None \<Rightarrow> 0 | Some s \<Rightarrow> nla_get_u32 s),
      port_duplex = (case pa TEAM_ATTR_PORT_DUPLEX of None \<Rightarrow> 0 | Some d \<Rightarrow> nla_get_u8 d),
      port_linkup = (pa TEAM_ATTR_PORT_LINKUP \<noteq> None),
      port_changed = (pa TEAM_ATTR_PORT_CHANGED \<noteq> None)\<rparr>"
  by (simp add: fill_port_def zeroed_port_def Let_def split: option.splits)

text \<open>
  C9. When a port list for the bound device decodes to the end, the registry holds one port
  per item, in the order of the items, and the port of an item has the item's ifindex
  attribute as interface index, the speed attribute as speed or 0 without it, the duplex
  attribute as duplex or 0 (half) without it, and \<open>linkup\<close> and \<open>changed\<close> true exactly
  when the flag attribute is present.
\<close>

theorem port_item_decoding:
  assumes "(case ATTR_TEAM_IFINDEX msg of Some a \<Rightarrow> nla_get_u32 a | None \<Rightarrow> 0) = ifindex th"
    and "ATTR_LIST_PORT msg = Some items"
    and "\<forall>item \<in> set items. port_item_ok item"
    and "i < length items"
    and "items ! i = (Parsed pa, ok)"
    and "pa TEAM_ATTR_PORT_IFINDEX = Some a"
  shows "length (port_list (snd (get_port_list_handler msg th))) = length items \<and>
     port_list (snd (get_port_list_handler msg th)) ! i =
       \<lparr>port_ifindex = nla_get_u32 a,
        port_speed = (case pa TEAM_ATTR_PORT_SPEED of None \<Rightarrow> 0 | Some s \<Rightarrow> nla_get_u32 s),
        port_duplex = (case pa TEAM_ATTR_PORT_DUPLEX of None \<Rightarrow> 0 | Some d \<Rightarrow> nla_get_u8 d),
        port_linkup = (pa TEAM_ATTR_PORT_LINKUP \<noteq> None),
        port_changed = (pa TEAM_ATTR_PORT_CHANGED \<noteq> None)\<rparr>"
proof -
  have "port_list (snd (get_port_list_handler msg th)) = map port_of_item items"
    using get_port_list_handler_ok [OF assms(1-3)] by simp
  moreover have "port_of_item (items ! i) = fill_port pa a"
    using assms(5,6) by (simp add: port_of_item_def)
  ultimately show ?thesis using assms(4) by (simp add: fill_port_fields)
qed

theorem port_item_decoding_witness:
  "port_list (snd (get_port_list_handler
      (port_msg (Some 5)
         [port_item 7,
          (Parsed [TEAM_ATTR_PORT_IFINDEX \<mapsto> attr_u32 9, TEAM_ATTR_PORT_DUPLEX \<mapsto> attr_u32 1,
                   TEAM_ATTR_PORT_CHANGED \<mapsto> attr_u32 0], True)])
      bound_handle)) ! 1 =
     \<lparr>port_ifindex = 9, port_speed = 0, port_duplex = 1, port_linkup = False,
      port_changed = True\<rparr> \<and>
   port_list (snd (get_port_list_handler
      (port_msg (Some 5)
         [port_item 7,
          (Parsed [TEAM_ATTR_PORT_IFINDEX \<mapsto> attr_u32 9, TEAM_ATTR_PORT_DUPLEX \<mapsto> attr_u32 1,
                   TEAM_ATTR_PORT_CHANGED \<mapsto> attr_u32 0], True)])
      bound_handle)) ! 0 =
     \<lparr>port_ifindex = 7, port_speed = 1000, port_duplex = 0, port_linkup = True,
      port_changed = False\<rparr>"
proof -
  let ?pa7 = "[TEAM_ATTR_PORT_IFINDEX \<mapsto> attr_u32 7, TEAM_ATTR_PORT_LINKUP \<mapsto> attr_u32 0,
              TEAM_ATTR_PORT_SPEED \<mapsto> attr_u32 1000]"
  let ?pa9 = "[TEAM_ATTR_PORT_IFINDEX \<mapsto> attr_u32 9, TEAM_ATTR_PORT_DUPLEX \<mapsto> attr_u32 1,
                   TEAM_ATTR_PORT_CHANGED \<mapsto> attr_u32 0]"
  let ?items = "[port_item 7, (Parsed ?pa9, True)]"
  let ?msg = "port_msg (Some 5) ?items"
  have dev: "(case ATTR_TEAM_IFINDEX ?msg of Some a \<Rightarrow> nla_get_u32 a | None \<Rightarrow> 0) =
     ifindex bound_handle"
    by (simp add: port_msg_def attr_u32_def bound_handle_def)
  have items: "ATTR_LIST_PORT ?msg = Some ?items" by (simp add: port_msg_def)
  have ok: "\<forall>item \<in> set ?items. port_item_ok item"
    by (simp add: port_item_ok_def port_item_def)
  have i1: "1 < length ?items" "?items ! 1 = (Parsed ?pa9, True)"
    "?pa9 TEAM_ATTR_PORT_IFINDEX = Some (attr_u32 9)" by simp_all
  have i0: "0 < length ?items" "?items ! 0 = (Parsed ?pa7, True)"
    "?pa7 TEAM_ATTR_PORT_IFINDEX = Some (attr_u32 7)" by (simp_all add: port_item_def)
  from port_item_decoding [OF dev items ok i1] port_item_decoding [OF dev items ok i0]
  show ?thesis by (simp add: attr_u32_def)
qed

section \<open>Initialisation and destruction\<close>

lemma team_init_keeps_index:
  assumes "team_init hmem th i env = Returns (e, th')" and "i \<noteq> 0"
  shows "ifindex th' = i"
  using assms
  by (auto simp: team_init_def Let_def return_syserr_def
           split: if_splits result.splits prod.splits option.splits
           dest!: get_port_list_snapshot get_options_snapshot)

lemma team_init_binds:
  assumes "team_init hmem th i env = Returns (0, th')"
  shows "i \<noteq> 0 \<and> ifindex th' = i"
proof -
  have "- ENOENT \<noteq> (0 :: c_int)" by (simp add: ENOENT_def)
  with assms have "i \<noteq> 0" by (auto simp: team_init_def)
  with team_init_keeps_index [OF assms] show ?thesis by simp
qed

text \<open>
  C10. \<open>team_init\<close> with interface index 0 returns \<open>-ENOENT\<close> and the context exactly as
  it was: nothing is recorded in its trace, so no channel was connected, no family or group
  resolved and nothing fetched, and its interface index is not assigned. A context fresh from
  \<open>team_alloc\<close> has index 0 and an empty trace, so it still has index 0 after such an
  \<open>init\<close>; and on a context with index 0 \<open>team_destroy\<close> returns \<open>-ENODEV\<close> without
  deleting any link.
\<close>

theorem team_init_zero_ifindex:
  "team_init hmem th 0 env = Returns (- ENOENT, th) \<and>
   (ifindex th = 0 \<longrightarrow> team_destroy th denv = Returns (- ENODEV, th)) \<and>
   (team_alloc aenv = Some th0 \<longrightarrow>
      ifindex th0 = 0 \<and> trace th0 = [] \<and>
      team_init hmem th0 0 env = Returns (- ENOENT, th0) \<and>
      team_destroy th0 denv = Returns (- ENODEV, th0))"
proof -
  have a: "team_alloc aenv = Some th0 \<longrightarrow> ifindex th0 = 0 \<and> trace th0 = []"
    by (auto simp: team_alloc_def Let_def team_set_log_priority_def zeroed_handle_def
             split: if_splits option.splits)
  have i: "\<And>t. team_init hmem t 0 env = Returns (- ENOENT, t)" by (simp add: team_init_def)
  have d: "\<And>t. ifindex t = 0 \<longrightarrow> team_destroy t denv = Returns (- ENODEV, t)"
    by (simp add: team_destroy_def)
  from a i d show ?thesis by blast
qed

theorem team_init_zero_ifindex_witness:
  "team_alloc alloc_env_ok = Some (zeroed_handle\<lparr>th_log_priority := LOG_ERR\<rparr>) \<and>
   team_init port_and_option_handlers (zeroed_handle\<lparr>th_log_priority := LOG_ERR\<rparr>) 0
       init_env_ok =
     Returns (- ENOENT, zeroed_handle\<lparr>th_log_priority := LOG_ERR\<rparr>) \<and>
   team_destroy (zeroed_handle\<lparr>th_log_priority := LOG_ERR\<rparr>) destroy_env_ok =
     Returns (- ENODEV, zeroed_handle\<lparr>th_log_priority := LOG_ERR\<rparr>)"
proof -
  have al: "team_alloc alloc_env_ok = Some (zeroed_handle\<lparr>th_log_priority := LOG_ERR\<rparr>)"
    by (simp add: team_alloc_def alloc_env_ok_def Let_def)
  from al team_init_zero_ifindex
    [where hmem = port_and_option_handlers and env = init_env_ok and denv = destroy_env_ok
       and aenv = alloc_env_ok and ?th0.0 = "zeroed_handle\<lparr>th_log_priority := LOG_ERR\<rparr>"]
  show ?thesis by blast
qed

end
